theory Spec2Isabelle
  imports Complex_Main
begin

section \<open>The SQP position-deviation smoother over OSQP\<close>

text \<open>
  A shallow embedding of
  \<^verbatim>\<open>modules/planning/math/discretized_points_smoothing/fem_pos_deviation_sqp_osqp_interface.cc\<close>.

  \<^item> \<^verbatim>\<open>c_int\<close> and \<^verbatim>\<open>int\<close> are mathematical integers: no size considered here comes
    near the range where \<^verbatim>\<open>int\<close> arithmetic would overflow, except for the explicit
    comparison with \<^verbatim>\<open>std::numeric_limits<int>::max()\<close>, which is kept.
  \<^item> \<^verbatim>\<open>c_float\<close> and \<^verbatim>\<open>double\<close> are exact reals. Rounding is outside the model.
    The one place where IEEE arithmetic differs in kind, division by zero in the
    convergence test, is modelled explicitly (see \<open>fdiv\<close>).
  \<^item> a \<^verbatim>\<open>std::vector\<close> is a list; the out-parameters of the builder functions are
    taken as arguments and returned updated.
  \<^item> the glog macros \<^verbatim>\<open>CHECK_GT\<close> and \<^verbatim>\<open>CHECK_EQ\<close> terminate the process when they
    fail; this is the error value \<open>Inl\<close> of a sum type.
  \<^item> the OSQP library is an external collaborator. The workspace records every
    library call the driver makes, and the numerical answer of \<^verbatim>\<open>osqp_solve\<close> is an
    arbitrary function of that history.
\<close>

type_synonym c_int = int
type_synonym c_float = real

subsection \<open>The object state\<close>

text \<open>The data members used by the translation unit. The trailing underscore of the
  C++ member names is dropped; \<^verbatim>\<open>x_\<close> and \<^verbatim>\<open>y_\<close> are \<open>x_out\<close> and \<open>y_out\<close>.\<close>

record FemPosDeviationSqpOsqpInterface =
  ref_points :: "(real \<times> real) list"
  bounds_around_refs :: "real list"
  weight_fem_pos_deviation :: real
  weight_path_length :: real
  weight_ref_deviation :: real
  weight_curvature_constraint_slack_var :: real
  max_iter :: int
  time_limit :: real
  verbose :: bool
  scaled_termination :: bool
  warm_start :: bool
  sqp_max_iter :: int
  sqp_jtol :: real
  num_of_points :: int
  num_of_pos_variables :: int
  num_of_slack_variables :: int
  num_of_variables :: int
  num_of_variable_constraints :: int
  num_of_curvature_constraints :: int
  num_of_constraints :: int
  x_out :: "real list"
  y_out :: "real list"

text \<open>A failed glog check.\<close>

datatype check_failure = CHECK_GT_failed | CHECK_EQ_failed

subsection \<open>Vector helpers\<close>

text \<open>\<^verbatim>\<open>v->resize(n)\<close>: truncates, or pads with value-initialised (zero) elements.
  The sizes passed are never negative once \<^verbatim>\<open>Solve\<close> has validated its input.\<close>

definition resize :: "int \<Rightarrow> real list \<Rightarrow> real list" where
  "resize n v = take (nat n) v @ replicate (nat n - length v) 0"

text \<open>\<^verbatim>\<open>(*v)[i] = a\<close> for an \<^verbatim>\<open>int\<close> index. C++ leaves an index outside the vector
  undefined; with the sizes \<^verbatim>\<open>Solve\<close> sets for three or more points every index written
  below is inside its vector.\<close>

definition store :: "real list \<Rightarrow> int \<Rightarrow> real \<Rightarrow> real list" where
  "store v i a = v[nat i := a]"

text \<open>\<^verbatim>\<open>columns[col].emplace_back(row, value)\<close>.\<close>

definition emplace_back :: "(c_int \<times> c_float) list list \<Rightarrow> int \<Rightarrow> c_int \<Rightarrow> c_float
    \<Rightarrow> (c_int \<times> c_float) list list" where
  "emplace_back columns col row a = columns[nat col := columns ! nat col @ [(row, a)]]"

text \<open>\<^verbatim>\<open>for (int i = lo; i < hi; ++i) body\<close> over a loop state.\<close>

definition for_loop :: "int \<Rightarrow> int \<Rightarrow> (int \<Rightarrow> 's \<Rightarrow> 's) \<Rightarrow> 's \<Rightarrow> 's" where
  "for_loop lo hi body s = fold body [lo..hi - 1] s"

subsection \<open>CalculateKernel\<close>

text \<open>The five column-filling loops of lines 205-260. The loop state is the pair
  of \<^verbatim>\<open>columns\<close> and \<^verbatim>\<open>col_num\<close>.\<close>

type_synonym kernel_state = "(c_int \<times> c_float) list list \<times> int"

definition first_point_cols :: "FemPosDeviationSqpOsqpInterface \<Rightarrow> int \<Rightarrow> kernel_state \<Rightarrow> kernel_state" where
  "first_point_cols this col = (\<lambda>(columns, col_num).
     (emplace_back columns col col
        (weight_fem_pos_deviation this + weight_path_length this + weight_ref_deviation this),
      col_num + 1))"

definition second_point_cols :: "FemPosDeviationSqpOsqpInterface \<Rightarrow> int \<Rightarrow> kernel_state \<Rightarrow> kernel_state" where
  "second_point_cols this col = (\<lambda>(columns, col_num).
     let columns = emplace_back columns col (col - 2)
           (- 2 * weight_fem_pos_deviation this - weight_path_length this);
         columns = emplace_back columns col col
           (5 * weight_fem_pos_deviation this + 2 * weight_path_length this
            + weight_ref_deviation this)
     in (columns, col_num + 1))"

text \<open>The inner loop of lines 225-235; its state also carries \<^verbatim>\<open>col_index\<close>, which
  the source advances with \<^verbatim>\<open>col_index += col\<close>.\<close>

definition interior_col :: "FemPosDeviationSqpOsqpInterface \<Rightarrow> int \<Rightarrow> int \<times> kernel_state
    \<Rightarrow> int \<times> kernel_state" where
  "interior_col this col = (\<lambda>(col_index, columns, col_num).
     let col_index = col_index + col;
         columns = emplace_back columns col_index (col_index - 4) (weight_fem_pos_deviation this);
         columns = emplace_back columns col_index (col_index - 2)
           (- 4 * weight_fem_pos_deviation this - weight_path_length this);
         columns = emplace_back columns col_index col_index
           (6 * weight_fem_pos_deviation this + 2 * weight_path_length this
            + weight_ref_deviation this)
     in (col_index, columns, col_num + 1))"

definition interior_point :: "FemPosDeviationSqpOsqpInterface \<Rightarrow> int \<Rightarrow> kernel_state \<Rightarrow> kernel_state" where
  "interior_point this point_index ks =
     snd (for_loop 0 2 (interior_col this) (point_index * 2, ks))"

definition second_last_point_cols :: "FemPosDeviationSqpOsqpInterface \<Rightarrow> int \<Rightarrow> kernel_state \<Rightarrow> kernel_state" where
  "second_last_point_cols this col = (\<lambda>(columns, col_num).
     let columns = emplace_back columns col (col - 4) (weight_fem_pos_deviation this);
         columns = emplace_back columns col (col - 2)
           (- 4 * weight_fem_pos_deviation this - weight_path_length this);
         columns = emplace_back columns col col
           (5 * weight_fem_pos_deviation this + 2 * weight_path_length this
            + weight_ref_deviation this)
     in (columns, col_num + 1))"

definition last_point_cols :: "FemPosDeviationSqpOsqpInterface \<Rightarrow> int \<Rightarrow> kernel_state \<Rightarrow> kernel_state" where
  "last_point_cols this col = (\<lambda>(columns, col_num).
     let columns = emplace_back columns col (col - 4) (weight_fem_pos_deviation this);
         columns = emplace_back columns col (col - 2)
           (- 2 * weight_fem_pos_deviation this - weight_path_length this);
         columns = emplace_back columns col col
           (weight_fem_pos_deviation this + weight_path_length this + weight_ref_deviation this)
     in (columns, col_num + 1))"

definition fill_columns :: "FemPosDeviationSqpOsqpInterface \<Rightarrow> kernel_state" where
  "fill_columns this =
    (let ks = (replicate (nat (num_of_variables this)) [], 0);
         ks = for_loop 0 2 (first_point_cols this) ks;
         ks = for_loop 2 4 (second_point_cols this) ks;
         second_point_from_last_index = num_of_points this - 2;
         ks = for_loop 2 second_point_from_last_index (interior_point this) ks;
         second_point_col_from_last_col = num_of_pos_variables this - 4;
         last_point_col_from_last_col = num_of_pos_variables this - 2;
         ks = for_loop second_point_col_from_last_col last_point_col_from_last_col
                (second_last_point_cols this) ks;
         ks = for_loop last_point_col_from_last_col (num_of_pos_variables this)
                (last_point_cols this) ks
     in ks)"

text \<open>The emission loop of lines 264-275. Its state is
  \<^verbatim>\<open>(P_data, P_indices, P_indptr, ind_p)\<close>.\<close>

type_synonym csc_out = "c_float list \<times> c_int list \<times> c_int list"

definition emit_entry :: "c_int \<times> c_float \<Rightarrow> csc_out \<times> int \<Rightarrow> csc_out \<times> int" where
  "emit_entry row_data_pair = (\<lambda>((P_data, P_indices, P_indptr), ind_p).
     ((P_data @ [snd row_data_pair * 2], P_indices @ [fst row_data_pair], P_indptr), ind_p + 1))"

definition emit_column :: "(c_int \<times> c_float) list list \<Rightarrow> int \<Rightarrow> csc_out \<times> int \<Rightarrow> csc_out \<times> int" where
  "emit_column columns i = (\<lambda>((P_data, P_indices, P_indptr), ind_p).
     fold emit_entry (columns ! nat i) ((P_data, P_indices, P_indptr @ [ind_p]), ind_p))"

definition CalculateKernel :: "FemPosDeviationSqpOsqpInterface \<Rightarrow> csc_out \<Rightarrow> check_failure + csc_out" where
  "CalculateKernel this P =
    (if \<not> num_of_points this > 2 then Inl CHECK_GT_failed
     else
       let (columns, col_num) = fill_columns this
       in if col_num \<noteq> num_of_pos_variables this then Inl CHECK_EQ_failed
          else
            let ((P_data, P_indices, P_indptr), ind_p) =
                  for_loop 0 col_num (emit_column columns) (P, 0)
            in Inr (P_data, P_indices, P_indptr @ [ind_p]))"

subsection \<open>CalculateOffset\<close>

definition offset_point :: "FemPosDeviationSqpOsqpInterface \<Rightarrow> int \<Rightarrow> real list \<Rightarrow> real list" where
  "offset_point this i q =
    (let ref_point_xy = ref_points this ! nat i;
         q = store q (2 * i) (- 2 * weight_ref_deviation this * fst ref_point_xy);
         q = store q (2 * i + 1) (- 2 * weight_ref_deviation this * snd ref_point_xy)
     in q)"

definition offset_slack :: "FemPosDeviationSqpOsqpInterface \<Rightarrow> int \<Rightarrow> real list \<Rightarrow> real list" where
  "offset_slack this i q =
     store q (num_of_pos_variables this + i) (weight_curvature_constraint_slack_var this)"

definition CalculateOffset :: "FemPosDeviationSqpOsqpInterface \<Rightarrow> real list \<Rightarrow> real list" where
  "CalculateOffset this q =
    (let q = resize (num_of_variables this) q;
         q = for_loop 0 (num_of_points this) (offset_point this) q;
         q = for_loop 0 (num_of_slack_variables this) (offset_slack this) q
     in q)"

subsection \<open>CalculateAffineConstraint and UpdateAffineConstraint\<close>

text \<open>The five out-parameters, in the order of the signature:
  \<^verbatim>\<open>(A_data, A_indices, A_indptr, lower_bounds, upper_bounds)\<close>.\<close>

type_synonym affine = "c_float list \<times> c_int list \<times> c_int list \<times> c_float list \<times> c_float list"

definition identity_col :: "int \<Rightarrow> csc_out \<times> int \<Rightarrow> csc_out \<times> int" where
  "identity_col i = (\<lambda>((A_data, A_indices, A_indptr), ind_A).
     ((A_data @ [1], A_indices @ [i], A_indptr @ [ind_A]), ind_A + 1))"

text \<open>Lines 306-312; the state is \<^verbatim>\<open>(lower_bounds, upper_bounds)\<close>.\<close>

definition box_bounds :: "FemPosDeviationSqpOsqpInterface \<Rightarrow> int \<Rightarrow> real list \<times> real list
    \<Rightarrow> real list \<times> real list" where
  "box_bounds this i = (\<lambda>(lower_bounds, upper_bounds).
     let ref_point_xy = ref_points this ! nat i;
         upper_bounds = store upper_bounds (i * 2) (fst ref_point_xy + bounds_around_refs this ! nat i);
         upper_bounds = store upper_bounds (i * 2 + 1) (snd ref_point_xy + bounds_around_refs this ! nat i);
         lower_bounds = store lower_bounds (i * 2) (fst ref_point_xy - bounds_around_refs this ! nat i);
         lower_bounds = store lower_bounds (i * 2 + 1) (snd ref_point_xy - bounds_around_refs this ! nat i)
     in (lower_bounds, upper_bounds))"

text \<open>Lines 314-318: the index written is \<^verbatim>\<open>i\<close> itself.\<close>

definition slack_bounds :: "int \<Rightarrow> real list \<times> real list \<Rightarrow> real list \<times> real list" where
  "slack_bounds i = (\<lambda>(lower_bounds, upper_bounds).
     let upper_bounds = store upper_bounds i 1;
         lower_bounds = store lower_bounds i (- (10 ^ 20))
     in (lower_bounds, upper_bounds))"

definition CalculateAffineConstraint :: "FemPosDeviationSqpOsqpInterface \<Rightarrow> affine \<Rightarrow> affine" where
  "CalculateAffineConstraint this = (\<lambda>(A_data, A_indices, A_indptr, lower_bounds, upper_bounds).
     let ((A_data, A_indices, A_indptr), ind_A) =
           for_loop 0 (num_of_variables this) identity_col ((A_data, A_indices, A_indptr), 0);
         A_indptr = A_indptr @ [ind_A];
         lower_bounds = resize (num_of_constraints this) lower_bounds;
         upper_bounds = resize (num_of_constraints this) upper_bounds;
         (lower_bounds, upper_bounds) =
           for_loop 0 (num_of_points this) (box_bounds this) (lower_bounds, upper_bounds);
         (lower_bounds, upper_bounds) =
           for_loop 0 (num_of_slack_variables this) slack_bounds (lower_bounds, upper_bounds)
     in (A_data, A_indices, A_indptr, lower_bounds, upper_bounds))"

text \<open>Lines 321-324: the body is empty.\<close>

definition UpdateAffineConstraint :: "FemPosDeviationSqpOsqpInterface \<Rightarrow> affine \<Rightarrow> affine" where
  "UpdateAffineConstraint this = (\<lambda>(A_data, A_indices, A_indptr, lower_bounds, upper_bounds).
     (A_data, A_indices, A_indptr, lower_bounds, upper_bounds))"

subsection \<open>SetPrimalWarmStart\<close>

definition warm_start_point :: "FemPosDeviationSqpOsqpInterface \<Rightarrow> nat \<Rightarrow> real list \<Rightarrow> real list" where
  "warm_start_point this i primal_warm_start =
    (let primal_warm_start = primal_warm_start[2 * i := fst (ref_points this ! i)];
         primal_warm_start = primal_warm_start[2 * i + 1 := snd (ref_points this ! i)]
     in primal_warm_start)"

definition SetPrimalWarmStart :: "FemPosDeviationSqpOsqpInterface \<Rightarrow> real list
    \<Rightarrow> check_failure + real list" where
  "SetPrimalWarmStart this primal_warm_start =
    (if int (length (ref_points this)) \<noteq> num_of_points this then Inl CHECK_EQ_failed
     else
       let primal_warm_start = resize (num_of_variables this) primal_warm_start
       in Inr (fold (warm_start_point this) [0..<length (ref_points this)] primal_warm_start))"

subsection \<open>The OSQP library\<close>

text \<open>
  The solver is not part of the translation unit. Its data structures are records
  holding the fields the driver fills in; each library call the driver makes is
  appended to the call log of the workspace, and \<^verbatim>\<open>osqp_solve\<close> obtains
  \<^verbatim>\<open>(info->status_val, info->obj_val, solution->x)\<close> from an arbitrary function of
  the calls received so far. The \<^verbatim>\<open>c_malloc\<close> and \<^verbatim>\<open>c_free\<close> calls that
  accompany \<^verbatim>\<open>osqp_setup\<close> and \<^verbatim>\<open>osqp_cleanup\<close> are not logged separately.
\<close>

record csc =
  csc_m :: c_int
  csc_n :: c_int
  csc_nzmax :: c_int
  csc_x :: "c_float list"
  csc_i :: "c_int list"
  csc_p :: "c_int list"

definition csc_matrix :: "c_int \<Rightarrow> c_int \<Rightarrow> c_int \<Rightarrow> c_float list \<Rightarrow> c_int list \<Rightarrow> c_int list \<Rightarrow> csc" where
  "csc_matrix m n nzmax x i p =
     \<lparr>csc_m = m, csc_n = n, csc_nzmax = nzmax, csc_x = x, csc_i = i, csc_p = p\<rparr>"

record OSQPData =
  data_n :: c_int
  data_m :: c_int
  data_P :: csc
  data_q :: "c_float list"
  data_A :: csc
  data_l :: "c_float list"
  data_u :: "c_float list"

text \<open>The settings the driver overrides after \<^verbatim>\<open>osqp_set_default_settings\<close>.\<close>

record OSQPSettings =
  settings_max_iter :: c_int
  settings_time_limit :: c_float
  settings_verbose :: bool
  settings_scaled_termination :: bool
  settings_warm_start :: bool

datatype osqp_call =
    Osqp_setup OSQPData OSQPSettings
  | Osqp_warm_start_x "c_float list"
  | Osqp_solve
  | Osqp_update_A "c_float list" c_int
  | Osqp_update_bounds "c_float list" "c_float list"
  | Osqp_cleanup

type_synonym osqp_solver = "osqp_call list \<Rightarrow> c_int \<times> c_float \<times> c_float list"

record OSQPWorkspace =
  calls :: "osqp_call list"
  info_status_val :: c_int
  info_obj_val :: c_float
  solution_x :: "c_float list"

text \<open>After setup the status is \<^verbatim>\<open>OSQP_UNSOLVED\<close> and the solution is zeroed; the
  driver never reads either before the first solve.\<close>

definition osqp_setup :: "OSQPData \<Rightarrow> OSQPSettings \<Rightarrow> OSQPWorkspace" where
  "osqp_setup data settings =
     \<lparr>calls = [Osqp_setup data settings], info_status_val = - 10, info_obj_val = 0,
      solution_x = replicate (nat (data_n data)) 0\<rparr>"

definition osqp_warm_start_x :: "OSQPWorkspace \<Rightarrow> c_float list \<Rightarrow> OSQPWorkspace" where
  "osqp_warm_start_x work x = work\<lparr>calls := calls work @ [Osqp_warm_start_x x]\<rparr>"

definition osqp_update_A :: "OSQPWorkspace \<Rightarrow> c_float list \<Rightarrow> c_int \<Rightarrow> OSQPWorkspace" where
  "osqp_update_A work Ax_new A_n = work\<lparr>calls := calls work @ [Osqp_update_A Ax_new A_n]\<rparr>"

definition osqp_update_bounds :: "OSQPWorkspace \<Rightarrow> c_float list \<Rightarrow> c_float list \<Rightarrow> OSQPWorkspace" where
  "osqp_update_bounds work l_new u_new =
     work\<lparr>calls := calls work @ [Osqp_update_bounds l_new u_new]\<rparr>"

definition osqp_cleanup :: "OSQPWorkspace \<Rightarrow> OSQPWorkspace" where
  "osqp_cleanup work = work\<lparr>calls := calls work @ [Osqp_cleanup]\<rparr>"

definition osqp_solve :: "osqp_solver \<Rightarrow> OSQPWorkspace \<Rightarrow> OSQPWorkspace" where
  "osqp_solve solver work =
    (let history = calls work @ [Osqp_solve];
         (status_val, obj_val, x) = solver history
     in work\<lparr>calls := history, info_status_val := status_val, info_obj_val := obj_val,
             solution_x := x\<rparr>)"

subsection \<open>OptimizeWithOsqp\<close>

definition extract_point :: "OSQPWorkspace \<Rightarrow> int \<Rightarrow> FemPosDeviationSqpOsqpInterface
    \<Rightarrow> FemPosDeviationSqpOsqpInterface" where
  "extract_point work i this =
    (let index = i * 2;
         this = this\<lparr>x_out := store (x_out this) i (solution_x work ! nat index)\<rparr>;
         this = this\<lparr>y_out := store (y_out this) i (solution_x work ! nat (index + 1))\<rparr>
     in this)"

definition OptimizeWithOsqp :: "osqp_solver \<Rightarrow> FemPosDeviationSqpOsqpInterface \<Rightarrow> c_float list
    \<Rightarrow> OSQPWorkspace \<Rightarrow> bool \<times> FemPosDeviationSqpOsqpInterface \<times> OSQPWorkspace" where
  "OptimizeWithOsqp solver this primal_warm_start work =
    (let work = osqp_warm_start_x work primal_warm_start;
         work = osqp_solve solver work;
         status = info_status_val work
     in if status < 0 then (False, this, work)
        else if status \<noteq> 1 \<and> status \<noteq> 2 then (False, this, work)
        else
          let this = this\<lparr>x_out := resize (num_of_points this) (x_out this)\<rparr>;
              this = this\<lparr>y_out := resize (num_of_points this) (y_out this)\<rparr>;
              this = for_loop 0 (num_of_points this) (extract_point work) this
          in (True, this, work))"

subsection \<open>Solve\<close>

text \<open>Each way of leaving \<^verbatim>\<open>Solve\<close>, named after the message logged there. A failed
  \<^verbatim>\<open>CHECK\<close> ends the process, so nothing is returned.\<close>

datatype solve_exit =
    Reference_points_empty
  | Size_not_equal
  | Size_smaller_than_3
  | Size_too_large
  | Initial_iteration_solving_fails
  | Iteration_solving_fails int
  | Objective_converges
  | Objective_not_converged
  | Check_failed check_failure

fun return_value :: "solve_exit \<Rightarrow> bool option" where
  "return_value Objective_converges = Some True"
| "return_value (Check_failed c) = None"
| "return_value e = Some False"

text \<open>The result of a call: how it ended, the object afterwards, and the OSQP calls
  made.\<close>

type_synonym solve_result = "solve_exit \<times> FemPosDeviationSqpOsqpInterface \<times> osqp_call list"

text \<open>Division of doubles in exact arithmetic; \<open>None\<close> stands for the non-finite
  result (an infinity or NaN) of dividing by zero. Neither compares below anything.\<close>

definition fdiv :: "real \<Rightarrow> real \<Rightarrow> real option" where
  "fdiv a b = (if b = 0 then None else Some (a / b))"

definition fabs :: "real option \<Rightarrow> real option" where
  "fabs a = map_option abs a"

definition fless :: "real option \<Rightarrow> real \<Rightarrow> bool" where
  "fless a b = (case a of None \<Rightarrow> False | Some a' \<Rightarrow> a' < b)"

text \<open>The local variables of \<^verbatim>\<open>Solve\<close> that are live in the SQP loop.\<close>

record sqp_locals =
  A_data :: "c_float list"
  A_indices :: "c_int list"
  A_indptr :: "c_int list"
  lower_bounds :: "c_float list"
  upper_bounds :: "c_float list"
  primal_warm_start :: "c_float list"
  work :: OSQPWorkspace
  itr :: int
  eps :: "real option"
  last_jvalue :: real

text \<open>Lines 33-51.\<close>

definition sanity_check :: "FemPosDeviationSqpOsqpInterface \<Rightarrow> solve_exit option" where
  "sanity_check this =
    (if ref_points this = [] then Some Reference_points_empty
     else if length (ref_points this) \<noteq> length (bounds_around_refs this) then Some Size_not_equal
     else if length (ref_points this) < 3 then Some Size_smaller_than_3
     else if int (length (ref_points this)) > 2147483647 then Some Size_too_large
     else None)"

text \<open>Lines 54-62.\<close>

definition state_definitions :: "FemPosDeviationSqpOsqpInterface \<Rightarrow> FemPosDeviationSqpOsqpInterface" where
  "state_definitions this =
    (let this = this\<lparr>num_of_points := int (length (ref_points this))\<rparr>;
         this = this\<lparr>num_of_pos_variables := num_of_points this * 2\<rparr>;
         this = this\<lparr>num_of_slack_variables := num_of_points this - 2\<rparr>;
         this = this\<lparr>num_of_variables := num_of_pos_variables this + num_of_slack_variables this\<rparr>;
         this = this\<lparr>num_of_variable_constraints := num_of_variables this\<rparr>;
         this = this\<lparr>num_of_curvature_constraints := num_of_points this - 2\<rparr>;
         this = this\<lparr>num_of_constraints :=
                  num_of_variable_constraints this + num_of_curvature_constraints this\<rparr>
     in this)"

text \<open>Lines 88-107.\<close>

definition load_data :: "FemPosDeviationSqpOsqpInterface \<Rightarrow> csc_out \<Rightarrow> c_float list \<Rightarrow> affine \<Rightarrow> OSQPData" where
  "load_data this = (\<lambda>(P_data, P_indices, P_indptr) q
        (A_data, A_indices, A_indptr, lower_bounds, upper_bounds).
     \<lparr>data_n = num_of_variables this, data_m = num_of_constraints this,
      data_P = csc_matrix (num_of_variables this) (num_of_variables this) (int (length P_data))
                 P_data P_indices P_indptr,
      data_q = q,
      data_A = csc_matrix (num_of_constraints this) (num_of_variables this) (int (length A_data))
                 A_data A_indices A_indptr,
      data_l = lower_bounds, data_u = upper_bounds\<rparr>)"

definition load_settings :: "FemPosDeviationSqpOsqpInterface \<Rightarrow> OSQPSettings" where
  "load_settings this =
     \<lparr>settings_max_iter = max_iter this, settings_time_limit = time_limit this,
      settings_verbose = verbose this, settings_scaled_termination = scaled_termination this,
      settings_warm_start = warm_start this\<rparr>"

text \<open>Lines 33-129: everything up to the entry of the loop. \<open>Inl\<close> is an exit taken
  before the loop, \<open>Inr\<close> the object and the locals at loop entry.\<close>

definition sqp_begin :: "osqp_solver \<Rightarrow> FemPosDeviationSqpOsqpInterface
    \<Rightarrow> solve_result + FemPosDeviationSqpOsqpInterface \<times> sqp_locals" where
  "sqp_begin solver this =
    (case sanity_check this of
       Some e \<Rightarrow> Inl (e, this, [])
     | None \<Rightarrow>
        let this = state_definitions this
        in case CalculateKernel this ([], [], []) of
             Inl c \<Rightarrow> Inl (Check_failed c, this, [])
           | Inr P \<Rightarrow>
              let q = CalculateOffset this [];
                  A = CalculateAffineConstraint this ([], [], [], [], [])
              in case SetPrimalWarmStart this [] of
                   Inl c \<Rightarrow> Inl (Check_failed c, this, [])
                 | Inr pws \<Rightarrow>
                    let w = osqp_setup (load_data this P q A) (load_settings this);
                        (initial_solve_res, this, w) = OptimizeWithOsqp solver this pws w
                    in if \<not> initial_solve_res
                       then Inl (Initial_iteration_solving_fails, this, calls (osqp_cleanup w))
                       else Inr (this,
                         \<lparr>A_data = fst A, A_indices = fst (snd A), A_indptr = fst (snd (snd A)),
                          lower_bounds = fst (snd (snd (snd A))),
                          upper_bounds = snd (snd (snd (snd A))),
                          primal_warm_start = pws, work = w, itr = 1, eps = Some 1,
                          last_jvalue = info_obj_val w\<rparr>))"

text \<open>Lines 133-137: the calls of one loop iteration up to the solve.\<close>

definition sqp_resolve :: "osqp_solver \<Rightarrow> FemPosDeviationSqpOsqpInterface \<Rightarrow> sqp_locals
    \<Rightarrow> bool \<times> FemPosDeviationSqpOsqpInterface \<times> sqp_locals" where
  "sqp_resolve solver this L =
    (let (A_data', A_indices', A_indptr', lower_bounds', upper_bounds') =
           UpdateAffineConstraint this
             (A_data L, A_indices L, A_indptr L, lower_bounds L, upper_bounds L);
         w = osqp_update_A (work L) A_data' (int (length A_data'));
         w = osqp_update_bounds w lower_bounds' upper_bounds';
         (iterative_solve_res, this, w) = OptimizeWithOsqp solver this (primal_warm_start L) w
     in (iterative_solve_res, this,
         L\<lparr>A_data := A_data', A_indices := A_indices', A_indptr := A_indptr',
           lower_bounds := lower_bounds', upper_bounds := upper_bounds', work := w\<rparr>))"

text \<open>Lines 132-163: the body of the loop. \<open>Inl\<close> is a return from inside the loop,
  \<open>Inr\<close> the state with which the loop condition is tested next. The body does not
  assign \<^verbatim>\<open>itr\<close>.\<close>

definition sqp_iteration :: "osqp_solver \<Rightarrow> FemPosDeviationSqpOsqpInterface \<Rightarrow> sqp_locals
    \<Rightarrow> solve_result + FemPosDeviationSqpOsqpInterface \<times> sqp_locals" where
  "sqp_iteration solver this L =
    (let (iterative_solve_res, this, L) = sqp_resolve solver this L
     in if \<not> iterative_solve_res
        then Inl (Iteration_solving_fails (itr L), this, calls (osqp_cleanup (work L)))
        else
          let L = L\<lparr>eps := fabs (fdiv (last_jvalue L - info_obj_val (work L)) (last_jvalue L))\<rparr>
          in if fless (eps L) (sqp_jtol this)
             then Inl (Objective_converges, this, calls (osqp_cleanup (work L)))
             else Inr (this, L\<lparr>last_jvalue := info_obj_val (work L)\<rparr>))"

text \<open>Lines 131-173. The loop may run forever; not returning is the value \<open>None\<close>.\<close>

partial_function (option) sqp_loop :: "osqp_solver \<Rightarrow> FemPosDeviationSqpOsqpInterface \<Rightarrow> sqp_locals
    \<Rightarrow> solve_result option" where
  "sqp_loop solver this L =
    (if itr L < sqp_max_iter this then
       (case sqp_iteration solver this L of
          Inl r \<Rightarrow> Some r
        | Inr s \<Rightarrow> sqp_loop solver (fst s) (snd s))
     else Some (Objective_not_converged, this, calls (osqp_cleanup (work L))))"

definition Solve :: "osqp_solver \<Rightarrow> FemPosDeviationSqpOsqpInterface \<Rightarrow> solve_result option" where
  "Solve solver this =
    (case sqp_begin solver this of
       Inl r \<Rightarrow> Some r
     | Inr s \<Rightarrow> sqp_loop solver (fst s) (snd s))"

text \<open>The state at the loop condition after \<open>k\<close> complete passes through the body,
  if the loop gets that far.\<close>

fun loop_head :: "osqp_solver \<Rightarrow> nat \<Rightarrow> FemPosDeviationSqpOsqpInterface \<times> sqp_locals
    \<Rightarrow> (FemPosDeviationSqpOsqpInterface \<times> sqp_locals) option" where
  "loop_head solver 0 s = Some s"
| "loop_head solver (Suc k) s =
    (case loop_head solver k s of
       None \<Rightarrow> None
     | Some (this, L) \<Rightarrow>
        if itr L < sqp_max_iter this then
          (case sqp_iteration solver this L of Inl r \<Rightarrow> None | Inr s' \<Rightarrow> Some s')
        else None)"

subsection \<open>What the constraint data mean to the solver\<close>

text \<open>
  Modelled from the spec: the solver's reading of \<open>(A, l, u)\<close> is not in the
  translation unit. The glossary gives it: a compressed sparse column matrix lists
  values and row indices grouped by column, with column boundary offsets, and the
  output of the linear map \<open>A\<close> is bounded elementwise by \<open>l\<close> and \<open>u\<close>.
  \<open>csc_row_times\<close> is row \<open>r\<close> of the product of the matrix with \<open>v\<close>.
\<close>

definition csc_row_times :: "c_float list \<Rightarrow> c_int list \<Rightarrow> c_int list \<Rightarrow> real list \<Rightarrow> int \<Rightarrow> real" where
  "csc_row_times A_x A_i A_p v r =
     (\<Sum>j\<leftarrow>[0..<length v]. \<Sum>k\<leftarrow>[nat (A_p ! j)..<nat (A_p ! Suc j)].
        if A_i ! k = r then A_x ! k * v ! j else 0)"

definition within_bounds :: "affine \<Rightarrow> real list \<Rightarrow> bool" where
  "within_bounds = (\<lambda>(A_x, A_i, A_p, l, u) v.
     list_all (\<lambda>r. l ! r \<le> csc_row_times A_x A_i A_p v (int r)
                  \<and> csc_row_times A_x A_i A_p v (int r) \<le> u ! r) [0..<length l])"

subsection \<open>Concrete inputs\<close>

text \<open>An object as a caller configures it before \<^verbatim>\<open>Solve\<close>: the given reference
  points and bound radii, the weights \<open>w_fem = 1\<close>, \<open>w_len = 1\<close>, \<open>w_ref = 1\<close>,
  \<open>w_slack = 0.01\<close>, at most 100 SQP iterations and tolerance \<open>0.0001\<close>.\<close>

definition smoother :: "(real \<times> real) list \<Rightarrow> real list \<Rightarrow> FemPosDeviationSqpOsqpInterface" where
  "smoother points radii =
     \<lparr>ref_points = points, bounds_around_refs = radii,
      weight_fem_pos_deviation = 1, weight_path_length = 1, weight_ref_deviation = 1,
      weight_curvature_constraint_slack_var = 1 / 100,
      max_iter = 500, time_limit = 0, verbose = False, scaled_termination = True,
      warm_start = True, sqp_max_iter = 100, sqp_jtol = 1 / 10000,
      num_of_points = 0, num_of_pos_variables = 0, num_of_slack_variables = 0,
      num_of_variables = 0, num_of_variable_constraints = 0,
      num_of_curvature_constraints = 0, num_of_constraints = 0,
      x_out = [], y_out = []\<rparr>"

definition two_points :: FemPosDeviationSqpOsqpInterface where
  "two_points = smoother [(0, 0), (1, 0)] [1 / 10, 1 / 10]"

definition three_collinear :: FemPosDeviationSqpOsqpInterface where
  "three_collinear = smoother [(0, 0), (1, 0), (2, 0)] [1 / 10, 1 / 10, 1 / 10]"

definition four_collinear :: FemPosDeviationSqpOsqpInterface where
  "four_collinear = smoother [(0, 0), (1, 0), (2, 0), (3, 0)] [1 / 10, 1 / 10, 1 / 10, 1 / 10]"

text \<open>A solver whose \<open>k\<close>-th call of \<^verbatim>\<open>osqp_solve\<close> answers \<open>script k\<close>.\<close>

definition solves_so_far :: "osqp_call list \<Rightarrow> nat" where
  "solves_so_far history = length (filter (\<lambda>c. c = Osqp_solve) history)"

definition scripted_solver :: "(nat \<Rightarrow> c_int \<times> c_float \<times> c_float list) \<Rightarrow> osqp_solver" where
  "scripted_solver script history = script (solves_so_far history)"

text \<open>Every solve succeeds; the objective value alternates between 1 and 2.\<close>

definition oscillating :: "nat \<Rightarrow> c_int \<times> c_float \<times> c_float list" where
  "oscillating k = (1, if even k then 2 else 1, replicate 10 0)"

text \<open>Every solve succeeds; the objective value is \<open>-2\<close> at the first solve and
  \<open>-1\<close> from then on.\<close>

definition settling :: "nat \<Rightarrow> c_int \<times> c_float \<times> c_float list" where
  "settling k = (1, if k \<le> 1 then - 2 else - 1, replicate 10 0)"

text \<open>Every solve succeeds with the same objective value \<open>-3\<close> and the same solution.\<close>

definition steady :: "nat \<Rightarrow> c_int \<times> c_float \<times> c_float list" where
  "steady k = (1, - 3, [0, 0, 1, 0, 2, 0, 3, 0, 0, 0])"

text \<open>The four collinear points with the tolerance set to zero.\<close>

definition zero_tolerance :: FemPosDeviationSqpOsqpInterface where
  "zero_tolerance = four_collinear\<lparr>sqp_jtol := 0\<rparr>"

section \<open>Properties\<close>

subsection \<open>Counting the kernel columns\<close>

lemma upto_0_1: "[0..1] = [0, 1::int]"
  by (simp add: upto.simps)

lemma fold_count:
  assumes "\<And>i s. snd (body i s) = snd s + (1::int)"
  shows "snd (fold body xs s) = snd s + int (length xs)"
  using assms by (induction xs arbitrary: s) auto

lemma for_loop_count:
  assumes "\<And>i s. snd (body i s) = snd s + (1::int)"
  shows "snd (for_loop lo hi body s) = snd s + int (nat (hi - lo))"
  unfolding for_loop_def using fold_count [of body, OF assms] by simp

lemma first_point_cols_count: "snd (first_point_cols this col ks) = snd ks + 1"
  by (simp add: first_point_cols_def split: prod.splits)

lemma second_point_cols_count: "snd (second_point_cols this col ks) = snd ks + 1"
  by (simp add: second_point_cols_def Let_def split: prod.splits)

lemma second_last_point_cols_count: "snd (second_last_point_cols this col ks) = snd ks + 1"
  by (simp add: second_last_point_cols_def Let_def split: prod.splits)

lemma last_point_cols_count: "snd (last_point_cols this col ks) = snd ks + 1"
  by (simp add: last_point_cols_def Let_def split: prod.splits)

lemma interior_point_count: "snd (interior_point this p ks) = snd ks + 2"
  by (simp add: interior_point_def for_loop_def upto_0_1 interior_col_def Let_def split: prod.splits)

lemma fold_count2:
  assumes "\<And>i s. snd (body i s) = snd s + (2::int)"
  shows "snd (fold body xs s) = snd s + 2 * int (length xs)"
  using assms by (induction xs arbitrary: s) auto

lemma for_loop_count2:
  assumes "\<And>i s. snd (body i s) = snd s + (2::int)"
  shows "snd (for_loop lo hi body s) = snd s + 2 * int (nat (hi - lo))"
  unfolding for_loop_def using fold_count2 [of body, OF assms] by simp

lemma fill_columns_col_num:
  "snd (fill_columns this) =
     8 + 2 * int (nat (num_of_points this - 4))"
  by (simp add: fill_columns_def Let_def for_loop_count first_point_cols_count
      second_point_cols_count second_last_point_cols_count last_point_cols_count
      for_loop_count2 interior_point_count)





subsection \<open>The constraint data\<close>

lemma state_definitions_fields:
  "num_of_points (state_definitions t) = int (length (ref_points t))"
  "num_of_pos_variables (state_definitions t) = int (length (ref_points t)) * 2"
  "num_of_slack_variables (state_definitions t) = int (length (ref_points t)) - 2"
  "num_of_variables (state_definitions t) = int (length (ref_points t)) * 3 - 2"
  "num_of_constraints (state_definitions t) = int (length (ref_points t)) * 4 - 4"
  "ref_points (state_definitions t) = ref_points t"
  "bounds_around_refs (state_definitions t) = bounds_around_refs t"
  "sqp_max_iter (state_definitions t) = sqp_max_iter t"
  "sqp_jtol (state_definitions t) = sqp_jtol t"
  by (simp_all add: state_definitions_def Let_def)

lemma resize_Nil: "resize n [] = replicate (nat n) 0"
  by (simp add: resize_def)

lemma box_bounds_frame:
  assumes "fold (box_bounds this) xs (l, u) = (l', u')"
    and "\<forall>i \<in> set xs. nat (i * 2) \<noteq> k \<and> nat (i * 2 + 1) \<noteq> k"
  shows "length l' = length l \<and> length u' = length u \<and> l' ! k = l ! k \<and> u' ! k = u ! k"
  using assms
proof (induction xs arbitrary: l u)
  case Nil
  then show ?case by simp
next
  case (Cons i xs)
  obtain l1 u1 where b: "box_bounds this i (l, u) = (l1, u1)"
    by (cases "box_bounds this i (l, u)")
  from b Cons.prems(2) have "length l1 = length l \<and> length u1 = length u \<and> l1 ! k = l ! k \<and> u1 ! k = u ! k"
    by (auto simp: box_bounds_def store_def Let_def)
  moreover have "length l' = length l1 \<and> length u' = length u1 \<and> l' ! k = l1 ! k \<and> u' ! k = u1 ! k"
    using Cons.IH [of l1 u1] Cons.prems b by simp
  ultimately show ?case by simp
qed

lemma slack_bounds_frame:
  assumes "fold slack_bounds xs (l, u) = (l', u')"
    and "\<forall>i \<in> set xs. nat i \<noteq> k"
  shows "length l' = length l \<and> length u' = length u \<and> l' ! k = l ! k \<and> u' ! k = u ! k"
  using assms
proof (induction xs arbitrary: l u)
  case Nil
  then show ?case by simp
next
  case (Cons i xs)
  obtain l1 u1 where b: "slack_bounds i (l, u) = (l1, u1)"
    by (cases "slack_bounds i (l, u)")
  from b Cons.prems(2) have "length l1 = length l \<and> length u1 = length u \<and> l1 ! k = l ! k \<and> u1 ! k = u ! k"
    by (auto simp: slack_bounds_def store_def Let_def)
  moreover have "length l' = length l1 \<and> length u' = length u1 \<and> l' ! k = l1 ! k \<and> u' ! k = u1 ! k"
    using Cons.IH [of l1 u1] Cons.prems b by simp
  ultimately show ?case by simp
qed

lemma identity_cols:
  "fold identity_col [0..int n - 1] ((a, b, c), 0)
     = ((a @ replicate n 1, b @ [0..int n - 1], c @ [0..int n - 1]), int n)"
proof (induction n)
  case 0
  then show ?case by simp
next
  case (Suc n)
  have "[0..int (Suc n) - 1] = [0..int n - 1] @ [int n]"
    using upto_rec2 [of 0 "int n"] by simp
  then show ?case
    using Suc by (simp add: identity_col_def replicate_append_same)
qed

lemma CalculateAffineConstraint_closed:
  assumes "0 \<le> num_of_variables this"
  shows "CalculateAffineConstraint this ([], [], [], [], [])
      = (case for_loop 0 (num_of_slack_variables this) slack_bounds
           (for_loop 0 (num_of_points this) (box_bounds this)
             (replicate (nat (num_of_constraints this)) 0, replicate (nat (num_of_constraints this)) 0))
         of (l, u) \<Rightarrow>
           (replicate (nat (num_of_variables this)) 1, [0..num_of_variables this - 1],
            [0..num_of_variables this], l, u))"
proof -
  have up: "[0..num_of_variables this - 1] @ [num_of_variables this] = [0..num_of_variables this]"
    using assms upto_rec2 [of 0 "num_of_variables this"] by simp
  have "fold identity_col [0..num_of_variables this - 1] (([], [], []), 0)
     = ((replicate (nat (num_of_variables this)) 1, [0..num_of_variables this - 1],
         [0..num_of_variables this - 1]), num_of_variables this)"
    using identity_cols [of "nat (num_of_variables this)" "[]" "[]" "[]"] assms by simp
  then show ?thesis
    by (simp add: CalculateAffineConstraint_def for_loop_def resize_Nil up Let_def split: prod.splits)
qed

lemma slack_rows_zero:
  assumes N: "3 \<le> length (ref_points t)"
    and A: "CalculateAffineConstraint (state_definitions t) ([], [], [], [], []) = (A_x, A_i, A_p, l, u)"
    and k: "2 * length (ref_points t) \<le> k" "k \<le> 4 * length (ref_points t) - 5"
  shows "l ! k = 0 \<and> u ! k = 0 \<and> length l = 4 * length (ref_points t) - 4
       \<and> length u = 4 * length (ref_points t) - 4"
proof -
  let ?st = "state_definitions t"
  let ?n = "length (ref_points t)"
  let ?z = "replicate (nat (num_of_constraints ?st)) (0::real)"
  obtain l1 u1 where b: "for_loop 0 (num_of_points ?st) (box_bounds ?st) (?z, ?z) = (l1, u1)"
    by (metis prod.exhaust)
  obtain l2 u2 where s: "for_loop 0 (num_of_slack_variables ?st) slack_bounds (l1, u1) = (l2, u2)"
    by (metis prod.exhaust)
  have "0 \<le> num_of_variables ?st"
    using N by (simp add: state_definitions_fields)
  from CalculateAffineConstraint_closed [OF this] A b s have lu: "l = l2" "u = u2"
    by simp_all
  have "\<forall>i \<in> set [0..num_of_points ?st - 1]. nat (i * 2) \<noteq> k \<and> nat (i * 2 + 1) \<noteq> k"
    using k by (auto simp: state_definitions_fields)
  with b have 1: "length l1 = length ?z \<and> length u1 = length ?z \<and> l1 ! k = ?z ! k \<and> u1 ! k = ?z ! k"
    using box_bounds_frame [of ?st "[0..num_of_points ?st - 1]" ?z ?z l1 u1 k]
    by (simp add: for_loop_def)
  have "\<forall>i \<in> set [0..num_of_slack_variables ?st - 1]. nat i \<noteq> k"
    using k by (auto simp: state_definitions_fields)
  with s have 2: "length l2 = length l1 \<and> length u2 = length u1 \<and> l2 ! k = l1 ! k \<and> u2 ! k = u1 ! k"
    using slack_bounds_frame [of "[0..num_of_slack_variables ?st - 1]" l1 u1 l2 u2 k]
    by (simp add: for_loop_def)
  have "k < nat (num_of_constraints ?st)"
    using k N by (simp add: state_definitions_fields; linarith?)
  moreover have "nat (num_of_constraints ?st) = 4 * ?n - 4"
    using N by (simp add: state_definitions_fields; linarith?)
  ultimately show ?thesis
    using 1 2 lu by simp
qed

lemma sum_list_pick:
  assumes "r < n"
  shows "(\<Sum>j\<leftarrow>[0..<n]. if j = r then f j else (0::real)) = f r"
proof -
  have "(\<Sum>j\<leftarrow>[0..<n]. if j = r then f j else 0) = (\<Sum>j\<in>set [0..<n]. if j = r then f j else 0)"
    by (rule sum_list_distinct_conv_sum_set) simp
  also have "\<dots> = f r"
    using assms by (simp add: sum.delta)
  finally show ?thesis .
qed

lemma identity_row_times:
  assumes "r < n" "length v = n"
  shows "csc_row_times (replicate n 1) [0..int n - 1] [0..int n] v (int r) = v ! r"
proof -
  have inner: "(\<Sum>k\<leftarrow>[nat ([0..int n] ! j)..<nat ([0..int n] ! Suc j)].
          if [0..int n - 1] ! k = int r then replicate n (1::real) ! k * v ! j else 0)
      = (if j = r then v ! j else 0)" if "j < n" for j
  proof -
    have "[0..int n] ! j = int j" "[0..int n] ! Suc j = int (Suc j)"
      using that by (simp_all add: nth_upto)
    then have "[nat ([0..int n] ! j)..<nat ([0..int n] ! Suc j)] = [j]"
      by (simp del: of_nat_Suc)
    moreover have "[0..int n - 1] ! j = int j"
      using that by (simp add: nth_upto)
    ultimately show ?thesis
      using that by simp
  qed
  have "map (\<lambda>j. \<Sum>k\<leftarrow>[nat ([0..int n] ! j)..<nat ([0..int n] ! Suc j)].
          if [0..int n - 1] ! k = int r then replicate n (1::real) ! k * v ! j else 0) [0..<n]
      = map (\<lambda>j. if j = r then v ! j else 0) [0..<n]"
    by (rule map_cong) (simp_all only: inner set_upt atLeastLessThan_iff)
  then show ?thesis
    unfolding csc_row_times_def assms(2) by (simp only: sum_list_pick [OF assms(1)])
qed

subsection \<open>The SQP loop\<close>

lemma extract_points_fields:
  "\<exists>xs ys. fold (extract_point w) is this = this\<lparr>x_out := xs, y_out := ys\<rparr>"
proof (induction "is" arbitrary: this)
  case Nil
  have "this = this\<lparr>x_out := x_out this, y_out := y_out this\<rparr>" by simp
  then show ?case by (metis fold_simps(1))
next
  case (Cons i "is")
  obtain xs ys where "fold (extract_point w) is (extract_point w i this)
      = (extract_point w i this)\<lparr>x_out := xs, y_out := ys\<rparr>"
    using Cons [of "extract_point w i this"] by blast
  then have "fold (extract_point w) (i # is) this = this\<lparr>x_out := xs, y_out := ys\<rparr>"
    by (simp add: extract_point_def Let_def)
  then show ?case by blast
qed

lemma OptimizeWithOsqp_this:
  "\<exists>xs ys. fst (snd (OptimizeWithOsqp solver this pws w)) = this\<lparr>x_out := xs, y_out := ys\<rparr>"
proof (cases "fst (OptimizeWithOsqp solver this pws w)")
  case False
  then have "fst (snd (OptimizeWithOsqp solver this pws w)) = this"
    by (auto simp: OptimizeWithOsqp_def Let_def split: if_splits)
  moreover have "this = this\<lparr>x_out := x_out this, y_out := y_out this\<rparr>" by simp
  ultimately show ?thesis by metis
next
  case True
  let ?t = "this\<lparr>x_out := resize (num_of_points this) (x_out this),
                   y_out := resize (num_of_points this) (y_out this)\<rparr>"
  let ?w = "osqp_solve solver (osqp_warm_start_x w pws)"
  from True have "fst (snd (OptimizeWithOsqp solver this pws w))
       = fold (extract_point ?w) [0..num_of_points this - 1] ?t"
    by (auto simp: OptimizeWithOsqp_def Let_def for_loop_def split: if_splits)
  moreover obtain xs ys where "fold (extract_point ?w) [0..num_of_points this - 1] ?t
       = ?t\<lparr>x_out := xs, y_out := ys\<rparr>"
    using extract_points_fields by blast
  ultimately have "fst (snd (OptimizeWithOsqp solver this pws w)) = this\<lparr>x_out := xs, y_out := ys\<rparr>"
    by simp
  then show ?thesis by blast
qed

lemma OptimizeWithOsqp_work:
  "snd (snd (OptimizeWithOsqp solver this pws w)) = osqp_solve solver (osqp_warm_start_x w pws)"
  by (simp add: OptimizeWithOsqp_def Let_def)

lemma OptimizeWithOsqp_result:
  "fst (OptimizeWithOsqp solver this pws w)
     \<longleftrightarrow> info_status_val (osqp_solve solver (osqp_warm_start_x w pws)) = 1
       \<or> info_status_val (osqp_solve solver (osqp_warm_start_x w pws)) = 2"
  by (simp add: OptimizeWithOsqp_def Let_def)

lemma osqp_solve_calls:
  "calls (osqp_solve solver w) = calls w @ [Osqp_solve]"
  "info_status_val (osqp_solve solver w) = fst (solver (calls w @ [Osqp_solve]))"
  "info_obj_val (osqp_solve solver w) = fst (snd (solver (calls w @ [Osqp_solve])))"
  "solution_x (osqp_solve solver w) = snd (snd (solver (calls w @ [Osqp_solve])))"
  by (simp_all add: osqp_solve_def Let_def split: prod.splits)

text \<open>What one pass through lines 133-137 does.\<close>

lemma sqp_resolve_locals:
  assumes "sqp_resolve solver this L = (ok, this', L')"
  shows "A_data L' = A_data L \<and> A_indices L' = A_indices L \<and> A_indptr L' = A_indptr L
       \<and> lower_bounds L' = lower_bounds L \<and> upper_bounds L' = upper_bounds L
       \<and> primal_warm_start L' = primal_warm_start L \<and> itr L' = itr L
       \<and> eps L' = eps L \<and> last_jvalue L' = last_jvalue L"
    and "work L' = osqp_solve solver (osqp_warm_start_x
           (osqp_update_bounds (osqp_update_A (work L) (A_data L) (int (length (A_data L))))
              (lower_bounds L) (upper_bounds L))
           (primal_warm_start L))"
    and "\<exists>xs ys. this' = this\<lparr>x_out := xs, y_out := ys\<rparr>"
    and "ok \<longleftrightarrow> info_status_val (work L') = 1 \<or> info_status_val (work L') = 2"
proof -
  let ?w = "osqp_update_bounds (osqp_update_A (work L) (A_data L) (int (length (A_data L))))
              (lower_bounds L) (upper_bounds L)"
  let ?r = "OptimizeWithOsqp solver this (primal_warm_start L) ?w"
  from assms have eq: "ok = fst ?r" "this' = fst (snd ?r)" "L' = L\<lparr>work := snd (snd ?r)\<rparr>"
    by (simp_all add: sqp_resolve_def UpdateAffineConstraint_def Let_def split: prod.splits)
  from eq(3) show "A_data L' = A_data L \<and> A_indices L' = A_indices L \<and> A_indptr L' = A_indptr L
       \<and> lower_bounds L' = lower_bounds L \<and> upper_bounds L' = upper_bounds L
       \<and> primal_warm_start L' = primal_warm_start L \<and> itr L' = itr L
       \<and> eps L' = eps L \<and> last_jvalue L' = last_jvalue L" by simp
  from eq(3) show w: "work L' = osqp_solve solver (osqp_warm_start_x ?w (primal_warm_start L))"
    by (simp add: OptimizeWithOsqp_work)
  from eq(2) show "\<exists>xs ys. this' = this\<lparr>x_out := xs, y_out := ys\<rparr>"
    using OptimizeWithOsqp_this by simp
  from eq(1) w show "ok \<longleftrightarrow> info_status_val (work L') = 1 \<or> info_status_val (work L') = 2"
    by (simp add: OptimizeWithOsqp_result)
qed

lemma sqp_resolve_calls:
  assumes "sqp_resolve solver this L = (ok, this', L')"
  shows "calls (work L') = calls (work L) @
           [Osqp_update_A (A_data L) (int (length (A_data L))),
            Osqp_update_bounds (lower_bounds L) (upper_bounds L),
            Osqp_warm_start_x (primal_warm_start L), Osqp_solve]"
  unfolding sqp_resolve_locals(2) [OF assms]
  by (simp add: osqp_solve_calls osqp_warm_start_x_def osqp_update_bounds_def osqp_update_A_def)

lemma sqp_iteration_Inr:
  assumes "sqp_iteration solver this L = Inr (this', L')"
  shows "A_data L' = A_data L \<and> A_indices L' = A_indices L \<and> A_indptr L' = A_indptr L
       \<and> lower_bounds L' = lower_bounds L \<and> upper_bounds L' = upper_bounds L
       \<and> primal_warm_start L' = primal_warm_start L \<and> itr L' = itr L
       \<and> last_jvalue L' = info_obj_val (work L')
       \<and> sqp_max_iter this' = sqp_max_iter this \<and> sqp_jtol this' = sqp_jtol this"
proof -
  obtain ok t1 L1 where r: "sqp_resolve solver this L = (ok, t1, L1)"
    by (metis prod.exhaust)
  from assms r have t: "this' = t1"
    and L: "L' = L1\<lparr>eps := fabs (fdiv (last_jvalue L1 - info_obj_val (work L1)) (last_jvalue L1)),
                  last_jvalue := info_obj_val (work L1)\<rparr>"
    by (auto simp: sqp_iteration_def Let_def split: if_splits)
  obtain xs ys where t1: "t1 = this\<lparr>x_out := xs, y_out := ys\<rparr>"
    using sqp_resolve_locals(3) [OF r] by blast
  show ?thesis
    using sqp_resolve_locals(1) [OF r] by (simp add: t L t1)
qed


lemma loop_head_invariant:
  assumes "loop_head solver k (this0, L0) = Some (this, L)"
  shows "A_data L = A_data L0 \<and> A_indices L = A_indices L0 \<and> A_indptr L = A_indptr L0
       \<and> lower_bounds L = lower_bounds L0 \<and> upper_bounds L = upper_bounds L0
       \<and> primal_warm_start L = primal_warm_start L0 \<and> itr L = itr L0
       \<and> sqp_max_iter this = sqp_max_iter this0 \<and> sqp_jtol this = sqp_jtol this0"
  using assms
proof (induction k arbitrary: this L)
  case 0
  then show ?case by simp
next
  case (Suc k)
  from Suc.prems obtain t1 L1 where h: "loop_head solver k (this0, L0) = Some (t1, L1)"
    and i: "sqp_iteration solver t1 L1 = Inr (this, L)"
    by (auto split: option.splits if_splits sum.splits)
  from Suc.IH [OF h] sqp_iteration_Inr [OF i] show ?case by simp
qed

lemma loop_head_last_jvalue:
  assumes "loop_head solver k (this0, L0) = Some (this, L)"
    and "last_jvalue L0 = info_obj_val (work L0)"
  shows "last_jvalue L = info_obj_val (work L)"
proof (cases k)
  case 0
  with assms show ?thesis by simp
next
  case (Suc j)
  with assms(1) obtain t1 L1 where "sqp_iteration solver t1 L1 = Inr (this, L)"
    by (auto split: option.splits if_splits sum.splits)
  then show ?thesis using sqp_iteration_Inr by blast
qed

lemma sqp_loop_from_head:
  assumes "loop_head solver k s0 = Some (this, L)"
  shows "sqp_loop solver (fst s0) (snd s0) = sqp_loop solver this L"
  using assms
proof (induction k arbitrary: this L)
  case 0
  then show ?case by auto
next
  case (Suc k)
  from Suc.prems obtain t1 L1 where h: "loop_head solver k s0 = Some (t1, L1)"
    and c: "itr L1 < sqp_max_iter t1"
    and i: "sqp_iteration solver t1 L1 = Inr (this, L)"
    by (auto split: option.splits if_splits sum.splits)
  have "sqp_loop solver t1 L1 = sqp_loop solver this L"
    using c i by (subst sqp_loop.simps) simp
  with Suc.IH [OF h] show ?case by simp
qed

lemma sqp_begin_Inr:
  assumes "sqp_begin solver t = Inr (this0, L0)"
  shows "itr L0 = 1"
    and "last_jvalue L0 = info_obj_val (work L0)"
    and "SetPrimalWarmStart (state_definitions t) [] = Inr (primal_warm_start L0)"
    and "CalculateAffineConstraint (state_definitions t) ([], [], [], [], [])
           = (A_data L0, A_indices L0, A_indptr L0, lower_bounds L0, upper_bounds L0)"
    and "\<exists>data settings. calls (work L0)
           = [Osqp_setup data settings, Osqp_warm_start_x (primal_warm_start L0), Osqp_solve]"
    and "sqp_max_iter this0 = sqp_max_iter t \<and> sqp_jtol this0 = sqp_jtol t"
proof -
  let ?t = "state_definitions t"
  from assms obtain P pws where P: "CalculateKernel ?t ([], [], []) = Inr P"
    and pws: "SetPrimalWarmStart ?t [] = Inr pws"
    by (auto simp: sqp_begin_def Let_def split: option.splits sum.splits)
  let ?A = "CalculateAffineConstraint ?t ([], [], [], [], [])"
  let ?w = "osqp_setup (load_data ?t P (CalculateOffset ?t []) ?A) (load_settings ?t)"
  let ?r = "OptimizeWithOsqp solver ?t pws ?w"
  from assms P pws have t0: "this0 = fst (snd ?r)"
    and L0: "L0 = \<lparr>A_data = fst ?A, A_indices = fst (snd ?A), A_indptr = fst (snd (snd ?A)),
                    lower_bounds = fst (snd (snd (snd ?A))),
                    upper_bounds = snd (snd (snd (snd ?A))),
                    primal_warm_start = pws, work = snd (snd ?r), itr = 1, eps = Some 1,
                    last_jvalue = info_obj_val (snd (snd ?r))\<rparr>"
    by (auto simp: sqp_begin_def Let_def split: option.splits prod.splits if_splits)
  show "itr L0 = 1" "last_jvalue L0 = info_obj_val (work L0)"
    by (simp_all add: L0)
  show "SetPrimalWarmStart ?t [] = Inr (primal_warm_start L0)"
    by (simp add: L0 pws)
  show "?A = (A_data L0, A_indices L0, A_indptr L0, lower_bounds L0, upper_bounds L0)"
    by (simp add: L0)
  show "\<exists>data settings. calls (work L0)
           = [Osqp_setup data settings, Osqp_warm_start_x (primal_warm_start L0), Osqp_solve]"
    by (simp add: L0 OptimizeWithOsqp_work osqp_solve_calls osqp_warm_start_x_def osqp_setup_def)
  obtain xs ys where "this0 = ?t\<lparr>x_out := xs, y_out := ys\<rparr>"
    using OptimizeWithOsqp_this t0 by metis
  then show "sqp_max_iter this0 = sqp_max_iter t \<and> sqp_jtol this0 = sqp_jtol t"
    by (simp add: state_definitions_fields)
qed

text \<open>A loop whose every pass continues never returns.\<close>

lemma sqp_loop_never_returns:
  assumes step: "\<And>this L. I this L \<Longrightarrow> itr L < sqp_max_iter this
           \<and> (\<exists>this' L'. sqp_iteration solver this L = Inr (this', L') \<and> I this' L')"
    and start: "I this L"
  shows "sqp_loop solver this L = None"
proof (rule ccontr)
  assume "sqp_loop solver this L \<noteq> None"
  then obtain r where r: "sqp_loop solver this L = Some r" by auto
  have "solver = solver \<longrightarrow> \<not> I this L"
  proof (rule sqp_loop.raw_induct [where P = "\<lambda>sv t M y. sv = solver \<longrightarrow> \<not> I t M", OF _ r])
    fix f sv t M y
    assume IH: "\<And>a b c z. f a b c = Some z \<Longrightarrow> a = solver \<longrightarrow> \<not> I b c"
      and eq: "(if itr M < sqp_max_iter t
                then case sqp_iteration sv t M of Inl r \<Rightarrow> Some r | Inr s \<Rightarrow> f sv (fst s) (snd s)
                else Some (Objective_not_converged, t, calls (osqp_cleanup (work M)))) = Some y"
    show "sv = solver \<longrightarrow> \<not> I t M"
    proof (intro impI notI)
      assume sv: "sv = solver" and inv: "I t M"
      from step [OF inv] obtain t' M' where c: "itr M < sqp_max_iter t"
        and i: "sqp_iteration solver t M = Inr (t', M')" and inv': "I t' M'"
        by blast
      from eq c i sv have "f solver t' M' = Some y" by simp
      from IH [OF this] inv' show False by simp
    qed
  qed
  with start show False by simp
qed

lemma sqp_iteration_unfold:
  assumes "sqp_resolve solver this L = (ok, this', L')"
  shows "sqp_iteration solver this L =
    (if \<not> ok then Inl (Iteration_solving_fails (itr L'), this', calls (osqp_cleanup (work L')))
     else if fless (fabs (fdiv (last_jvalue L' - info_obj_val (work L')) (last_jvalue L')))
               (sqp_jtol this')
     then Inl (Objective_converges, this', calls (osqp_cleanup (work L')))
     else Inr (this', L'\<lparr>eps := fabs (fdiv (last_jvalue L' - info_obj_val (work L')) (last_jvalue L')),
                         last_jvalue := info_obj_val (work L')\<rparr>))"
  by (simp add: sqp_iteration_def assms Let_def)

lemma warm_start_point_apply:
  "warm_start_point this i v
     = v[2 * i := fst (ref_points this ! i), 2 * i + 1 := snd (ref_points this ! i)]"
  by (simp add: warm_start_point_def)

lemma warm_start_points:
  assumes "2 * n \<le> length v"
  shows "length (fold (warm_start_point this) [0..<n] v) = length v
       \<and> (\<forall>i < n. fold (warm_start_point this) [0..<n] v ! (2 * i) = fst (ref_points this ! i)
                 \<and> fold (warm_start_point this) [0..<n] v ! (2 * i + 1) = snd (ref_points this ! i))
       \<and> (\<forall>k \<ge> 2 * n. fold (warm_start_point this) [0..<n] v ! k = v ! k)"
  using assms
proof (induction n)
  case 0
  then show ?case by simp
next
  case (Suc n)
  define r where "r = fold (warm_start_point this) [0..<n] v"
  have step: "fold (warm_start_point this) [0..<Suc n] v
      = r[2 * n := fst (ref_points this ! n), 2 * n + 1 := snd (ref_points this ! n)]"
    by (simp add: r_def warm_start_point_apply)
  from Suc have IH: "length r = length v"
    "\<And>i. i < n \<Longrightarrow> r ! (2 * i) = fst (ref_points this ! i) \<and> r ! (2 * i + 1) = snd (ref_points this ! i)"
    "\<And>k. 2 * n \<le> k \<Longrightarrow> r ! k = v ! k"
    by (simp_all add: r_def)
  have len: "2 * n + 1 < length r"
    using Suc.prems IH(1) by simp
  show ?case
    unfolding step using IH len by (auto simp: nth_list_update less_Suc_eq)
qed

lemma SetPrimalWarmStart_closed:
  assumes "2 \<le> length (ref_points t)"
  shows "\<exists>pws. SetPrimalWarmStart (state_definitions t) [] = Inr pws
       \<and> length pws = 3 * length (ref_points t) - 2
       \<and> (\<forall>i < length (ref_points t). pws ! (2 * i) = fst (ref_points t ! i)
                                     \<and> pws ! (2 * i + 1) = snd (ref_points t ! i))
       \<and> (\<forall>k. 2 * length (ref_points t) \<le> k \<and> k < 3 * length (ref_points t) - 2 \<longrightarrow> pws ! k = 0)"
proof -
  let ?N = "length (ref_points t)"
  let ?v = "replicate (3 * ?N - 2) (0::real)"
  have n: "nat (num_of_variables (state_definitions t)) = 3 * ?N - 2"
    using assms by (simp add: state_definitions_fields; linarith?)
  have "2 * ?N \<le> length ?v"
    using assms by simp
  from warm_start_points [OF this, of "state_definitions t"]
  show ?thesis
    by (simp add: SetPrimalWarmStart_def state_definitions_fields(1,6) resize_Nil n)
qed


lemma extract_point_apply:
  "extract_point w i this =
     this\<lparr>x_out := (x_out this)[nat i := solution_x w ! nat (i * 2)],
          y_out := (y_out this)[nat i := solution_x w ! nat (i * 2 + 1)]\<rparr>"
  by (simp add: extract_point_def store_def Let_def)

lemma extract_points_closed:
  assumes "n \<le> length (x_out this)" "n \<le> length (y_out this)"
  shows "length (x_out (fold (extract_point w) [0..int n - 1] this)) = length (x_out this)
       \<and> length (y_out (fold (extract_point w) [0..int n - 1] this)) = length (y_out this)
       \<and> (\<forall>i < n. x_out (fold (extract_point w) [0..int n - 1] this) ! i = solution_x w ! (2 * i)
                 \<and> y_out (fold (extract_point w) [0..int n - 1] this) ! i = solution_x w ! (2 * i + 1))"
  using assms
proof (induction n)
  case 0
  then show ?case by simp
next
  case (Suc n)
  define r where "r = fold (extract_point w) [0..int n - 1] this"
  have up: "[0..int (Suc n) - 1] = [0..int n - 1] @ [int n]"
    using upto_rec2 [of 0 "int n"] by simp
  have step: "fold (extract_point w) [0..int (Suc n) - 1] this
      = r\<lparr>x_out := (x_out r)[n := solution_x w ! (2 * n)],
           y_out := (y_out r)[n := solution_x w ! (2 * n + 1)]\<rparr>"
    unfolding up by (simp add: r_def extract_point_apply nat_mult_distrib nat_add_distrib mult.commute)
  from Suc have IH: "length (x_out r) = length (x_out this)" "length (y_out r) = length (y_out this)"
    "\<And>i. i < n \<Longrightarrow> x_out r ! i = solution_x w ! (2 * i) \<and> y_out r ! i = solution_x w ! (2 * i + 1)"
    by (simp_all add: r_def)
  show ?case
    unfolding step using IH Suc.prems by (auto simp: nth_list_update less_Suc_eq)
qed

lemma OptimizeWithOsqp_solution:
  assumes "fst (OptimizeWithOsqp solver this pws w)"
  shows "length (x_out (fst (snd (OptimizeWithOsqp solver this pws w)))) = nat (num_of_points this)
       \<and> length (y_out (fst (snd (OptimizeWithOsqp solver this pws w)))) = nat (num_of_points this)
       \<and> (\<forall>i < nat (num_of_points this).
            x_out (fst (snd (OptimizeWithOsqp solver this pws w))) ! i
              = solution_x (snd (snd (OptimizeWithOsqp solver this pws w))) ! (2 * i)
          \<and> y_out (fst (snd (OptimizeWithOsqp solver this pws w))) ! i
              = solution_x (snd (snd (OptimizeWithOsqp solver this pws w))) ! (2 * i + 1))"
proof -
  let ?n = "nat (num_of_points this)"
  let ?t = "this\<lparr>x_out := resize (num_of_points this) (x_out this),
                   y_out := resize (num_of_points this) (y_out this)\<rparr>"
  let ?w = "osqp_solve solver (osqp_warm_start_x w pws)"
  have up: "[0..num_of_points this - 1] = [0..int ?n - 1]"
    by (cases "0 \<le> num_of_points this") simp_all
  from assms have "fst (snd (OptimizeWithOsqp solver this pws w))
       = fold (extract_point ?w) [0..num_of_points this - 1] ?t"
    by (auto simp: OptimizeWithOsqp_def Let_def for_loop_def split: if_splits)
  then have t: "fst (snd (OptimizeWithOsqp solver this pws w))
       = fold (extract_point ?w) [0..int ?n - 1] ?t"
    by (simp only: up)
  have len: "length (x_out ?t) = ?n" "length (y_out ?t) = ?n"
    by (simp_all add: resize_def)
  from extract_points_closed [of ?n ?t ?w] len show ?thesis
    by (simp add: t OptimizeWithOsqp_work)
qed

lemma loop_head_this:
  assumes "loop_head solver k (this0, L0) = Some (this, L)"
  shows "\<exists>xs ys. this = this0\<lparr>x_out := xs, y_out := ys\<rparr>"
  using assms
proof (induction k arbitrary: this L)
  case 0
  have "this0 = this0\<lparr>x_out := x_out this0, y_out := y_out this0\<rparr>" by simp
  with 0 show ?case by (metis loop_head.simps(1) option.inject prod.inject)
next
  case (Suc k)
  from Suc.prems obtain t1 L1 where h: "loop_head solver k (this0, L0) = Some (t1, L1)"
    and i: "sqp_iteration solver t1 L1 = Inr (this, L)"
    by (auto split: option.splits if_splits sum.splits)
  obtain ok t2 L2 where r: "sqp_resolve solver t1 L1 = (ok, t2, L2)"
    by (metis prod.exhaust)
  from i have "this = t2"
    by (auto simp: sqp_iteration_unfold [OF r] split: if_splits)
  moreover obtain xs ys where "t2 = t1\<lparr>x_out := xs, y_out := ys\<rparr>"
    using sqp_resolve_locals(3) [OF r] by blast
  moreover obtain xs' ys' where "t1 = this0\<lparr>x_out := xs', y_out := ys'\<rparr>"
    using Suc.IH [OF h] by blast
  ultimately have "this = this0\<lparr>x_out := xs, y_out := ys\<rparr>"
    by simp
  then show ?case by blast
qed

lemma sqp_begin_this:
  assumes "sqp_begin solver t = Inr (this0, L0)"
  shows "\<exists>xs ys. this0 = (state_definitions t)\<lparr>x_out := xs, y_out := ys\<rparr>"
proof -
  let ?t = "state_definitions t"
  from assms obtain P pws where P: "CalculateKernel ?t ([], [], []) = Inr P"
    and pws: "SetPrimalWarmStart ?t [] = Inr pws"
    by (auto simp: sqp_begin_def Let_def split: option.splits sum.splits)
  let ?w = "osqp_setup (load_data ?t P (CalculateOffset ?t [])
              (CalculateAffineConstraint ?t ([], [], [], [], []))) (load_settings ?t)"
  from assms P pws have "this0 = fst (snd (OptimizeWithOsqp solver ?t pws ?w))"
    by (auto simp: sqp_begin_def Let_def split: option.splits prod.splits if_splits)
  then show ?thesis
    using OptimizeWithOsqp_this by metis
qed

lemma sqp_begin_valid:
  assumes "sqp_begin solver t = Inr s"
  shows "3 \<le> length (ref_points t)"
  using assms by (auto simp: sqp_begin_def sanity_check_def split: if_splits)

lemma sqp_begin_objective:
  assumes "sqp_begin solver t = Inr (this0, L0)"
  shows "info_obj_val (work L0) = fst (snd (solver (calls (work L0))))"
proof -
  let ?t = "state_definitions t"
  from assms obtain P pws where P: "CalculateKernel ?t ([], [], []) = Inr P"
    and pws: "SetPrimalWarmStart ?t [] = Inr pws"
    by (auto simp: sqp_begin_def Let_def split: option.splits sum.splits)
  let ?w = "osqp_setup (load_data ?t P (CalculateOffset ?t [])
              (CalculateAffineConstraint ?t ([], [], [], [], []))) (load_settings ?t)"
  from assms P pws have "work L0 = snd (snd (OptimizeWithOsqp solver ?t pws ?w))"
    by (auto simp: sqp_begin_def Let_def split: option.splits prod.splits if_splits)
  then show ?thesis
    by (simp add: OptimizeWithOsqp_work osqp_solve_calls)
qed

text \<open>If the loop is entered with a budget above 1, every solve succeeds and no two
  consecutive objective values meet the tolerance, the call never returns.\<close>

lemma Solve_without_progress:
  assumes b: "sqp_begin solver t = Inr (t0, L0)"
    and m: "1 < sqp_max_iter t"
    and ok: "\<And>h. fst (solver h) = 1 \<or> fst (solver h) = 2"
    and far: "\<And>h a n l u x. \<not> fless (fabs (fdiv
          (fst (snd (solver h))
             - fst (snd (solver (h @ [Osqp_update_A a n, Osqp_update_bounds l u,
                                       Osqp_warm_start_x x, Osqp_solve]))))
          (fst (snd (solver h))))) (sqp_jtol t)"
  shows "Solve solver t = None"
proof -
  define I where "I = (\<lambda>(this :: FemPosDeviationSqpOsqpInterface) (L :: sqp_locals).
      sqp_max_iter this = sqp_max_iter t \<and> sqp_jtol this = sqp_jtol t \<and> itr L = 1
      \<and> last_jvalue L = fst (snd (solver (calls (work L)))))"
  have start: "I t0 L0"
    using sqp_begin_Inr(1,2,6) [OF b] sqp_begin_objective [OF b] by (simp add: I_def)
  have step: "itr L < sqp_max_iter this
      \<and> (\<exists>this' L'. sqp_iteration solver this L = Inr (this', L') \<and> I this' L')"
    if inv: "I this L" for this L
  proof -
    obtain res t1 L1 where r: "sqp_resolve solver this L = (res, t1, L1)"
      by (metis prod.exhaust)
    note c = sqp_resolve_calls [OF r]
    have w: "info_status_val (work L1) = fst (solver (calls (work L1)))"
      "info_obj_val (work L1) = fst (snd (solver (calls (work L1))))"
      unfolding sqp_resolve_locals(2) [OF r] by (simp_all add: osqp_solve_calls)
    have res: "res"
      using sqp_resolve_locals(4) [OF r] ok [of "calls (work L1)"] w(1) by simp
    obtain xs ys where t1: "t1 = this\<lparr>x_out := xs, y_out := ys\<rparr>"
      using sqp_resolve_locals(3) [OF r] by blast
    have L1: "itr L1 = itr L" "last_jvalue L1 = last_jvalue L"
      using sqp_resolve_locals(1) [OF r] by simp_all
    have not_met: "\<not> fless (fabs (fdiv (last_jvalue L1 - info_obj_val (work L1)) (last_jvalue L1)))
                 (sqp_jtol t1)"
      using inv far [of "calls (work L)"] by (simp add: I_def L1 w(2) t1 c)
    have "sqp_iteration solver this L
        = Inr (t1, L1\<lparr>eps := fabs (fdiv (last_jvalue L1 - info_obj_val (work L1)) (last_jvalue L1)),
                      last_jvalue := info_obj_val (work L1)\<rparr>)"
      using res not_met by (simp add: sqp_iteration_unfold [OF r])
    moreover have "I t1 (L1\<lparr>eps := fabs (fdiv (last_jvalue L1 - info_obj_val (work L1)) (last_jvalue L1)),
                      last_jvalue := info_obj_val (work L1)\<rparr>)"
      using inv by (simp add: I_def t1 L1 w(2))
    moreover have "itr L < sqp_max_iter this"
      using inv m by (simp add: I_def)
    ultimately show ?thesis by blast
  qed
  have "sqp_loop solver t0 L0 = None"
    using step start by (rule sqp_loop_never_returns)
  then show ?thesis
    by (simp add: Solve_def b)
qed

subsection \<open>Input validation\<close>

text \<open>
  C7. \<^verbatim>\<open>Solve\<close> returns failure whenever the reference-point sequence is empty, its
  length differs from that of the bound radii, it has fewer than three points, or
  it has more than \<^verbatim>\<open>INT_MAX\<close> points. The object is returned as it was (nothing
  was computed or stored) and no OSQP call was made (no setup, no solve).
\<close>

theorem Solve_rejects_invalid_input:
  assumes "ref_points this = []
         \<or> length (ref_points this) \<noteq> length (bounds_around_refs this)
         \<or> length (ref_points this) < 3
         \<or> int (length (ref_points this)) > 2147483647"
  shows "\<exists>e \<in> {Reference_points_empty, Size_not_equal, Size_smaller_than_3, Size_too_large}.
           Solve solver this = Some (e, this, []) \<and> return_value e = Some False"
  using assms by (auto simp: Solve_def sqp_begin_def sanity_check_def)

text \<open>Two reference points: rejected as too few, before any solver call.\<close>

theorem Solve_rejects_invalid_input_witness:
  "length (ref_points two_points) < 3
   \<and> Solve (scripted_solver oscillating) two_points = Some (Size_smaller_than_3, two_points, [])
   \<and> return_value Size_smaller_than_3 = Some False"
proof -
  have h: "length (ref_points two_points) < 3"
    by (simp add: two_points_def smoother_def)
  have "sanity_check two_points = Some Size_smaller_than_3"
    by (simp add: sanity_check_def two_points_def smoother_def)
  then have "Solve (scripted_solver oscillating) two_points = Some (Size_smaller_than_3, two_points, [])"
    by (simp add: Solve_def sqp_begin_def)
  with h Solve_rejects_invalid_input [of two_points "scripted_solver oscillating"]
  show ?thesis by simp
qed

subsection \<open>The solver status\<close>

text \<open>
  C8. \<^verbatim>\<open>OptimizeWithOsqp\<close> reports success if and only if the status value the solver
  left in the workspace is 1 or 2; that status is the solver's answer to this call.
  Every other value, negative or not, is reported as failure.
\<close>

theorem OptimizeWithOsqp_success_iff:
  "info_status_val (snd (snd (OptimizeWithOsqp solver this pws w)))
     = fst (solver (calls w @ [Osqp_warm_start_x pws, Osqp_solve]))
   \<and> (fst (OptimizeWithOsqp solver this pws w)
        \<longleftrightarrow> info_status_val (snd (snd (OptimizeWithOsqp solver this pws w))) = 1
          \<or> info_status_val (snd (snd (OptimizeWithOsqp solver this pws w))) = 2)"
  by (simp add: OptimizeWithOsqp_def osqp_solve_def osqp_warm_start_x_def Let_def split: prod.splits)

subsection \<open>Three reference points\<close>

text \<open>
  C2. For the three collinear points \<open>(0,0), (1,0), (2,0)\<close> with radius 0.1 and weights
  1, 1, 1, 0.01 the claim is that \<^verbatim>\<open>Solve\<close> returns success. In the code the column
  counter of \<^verbatim>\<open>CalculateKernel\<close> reaches 8 while there are 6 position variables, so
  \<^verbatim>\<open>CHECK_EQ\<close> fails: whatever the solver would answer, the call ends there, nothing
  is returned and no OSQP call has been made.
\<close>

theorem Solve_three_collinear_check_fails:
  "snd (fill_columns (state_definitions three_collinear)) = 8
   \<and> num_of_pos_variables (state_definitions three_collinear) = 6
   \<and> Solve solver three_collinear
       = Some (Check_failed CHECK_EQ_failed, state_definitions three_collinear, [])
   \<and> return_value (Check_failed CHECK_EQ_failed) = None"
proof -
  have 1: "sanity_check three_collinear = None"
    by code_simp
  have 2: "CalculateKernel (state_definitions three_collinear) ([], [], []) = Inl CHECK_EQ_failed"
    by code_simp
  have 3: "snd (fill_columns (state_definitions three_collinear)) = 8"
    by code_simp
  have 4: "num_of_pos_variables (state_definitions three_collinear) = 6"
    by code_simp
  show ?thesis
    using 3 4 by (simp add: Solve_def sqp_begin_def 1 2)
qed

subsection \<open>The bounds written by CalculateAffineConstraint\<close>

text \<open>
  C3. The claim is that rows \<open>2i\<close> and \<open>2i+1\<close> hold the box of point \<open>i\<close> and that
  the slack-variable rows hold \<open>[-1e20, 1]\<close>. The last loop of the function writes
  row \<open>i\<close>, not a slack row: for three points with radius 0.1, row 0 (the x box of
  point 0) ends as \<open>[-1e20, 1]\<close> instead of \<open>[-0.1, 0.1]\<close>, and the one slack row,
  row 6, holds \<open>[0, 0]\<close>.
\<close>

theorem CalculateAffineConstraint_three_collinear:
  "CalculateAffineConstraint (state_definitions three_collinear) ([], [], [], [], []) =
     ([1, 1, 1, 1, 1, 1, 1], [0, 1, 2, 3, 4, 5, 6], [0, 1, 2, 3, 4, 5, 6, 7],
      [- (10 ^ 20), - (1 / 10), 9 / 10, - (1 / 10), 19 / 10, - (1 / 10), 0, 0],
      [1, 1 / 10, 11 / 10, 1 / 10, 21 / 10, 1 / 10, 0, 0])"
  by code_simp

text \<open>
  C10. With \<open>N \<ge> 3\<close> reference points, and the sizes set as \<^verbatim>\<open>Solve\<close> sets them, the
  lower and upper bounds at every index from \<open>2N\<close> to \<open>4N-5\<close> are 0. The matrix built
  is the identity on the \<open>3N-2\<close> variables, so a vector within the bounds has every
  slack variable equal to 0.
\<close>

theorem slack_variable_rows_are_zero:
  assumes "3 \<le> length (ref_points t)"
    and "CalculateAffineConstraint (state_definitions t) ([], [], [], [], []) = (A_x, A_i, A_p, l, u)"
  shows "(\<forall>k. 2 * length (ref_points t) \<le> k \<and> k \<le> 4 * length (ref_points t) - 5
              \<longrightarrow> l ! k = 0 \<and> u ! k = 0)
       \<and> (\<forall>v r. length v = 3 * length (ref_points t) - 2 \<and> r < 3 * length (ref_points t) - 2
              \<longrightarrow> csc_row_times A_x A_i A_p v (int r) = v ! r)
       \<and> (\<forall>v. length v = 3 * length (ref_points t) - 2 \<and> within_bounds (A_x, A_i, A_p, l, u) v
              \<longrightarrow> (\<forall>i < length (ref_points t) - 2. v ! (2 * length (ref_points t) + i) = 0))"
proof -
  let ?N = "length (ref_points t)"
  let ?n = "3 * ?N - 2"
  have nv: "num_of_variables (state_definitions t) = int ?n"
    using assms(1) by (simp add: state_definitions_fields; linarith?)
  then have "0 \<le> num_of_variables (state_definitions t)"
    by simp
  from CalculateAffineConstraint_closed [OF this] assms(2)
  have A: "A_x = replicate ?n 1" "A_i = [0..int ?n - 1]" "A_p = [0..int ?n]"
    by (simp_all add: nv split: prod.splits)
  have zero: "l ! k = 0 \<and> u ! k = 0" if "2 * ?N \<le> k" "k \<le> 4 * ?N - 5" for k
    using slack_rows_zero [OF assms that] by simp
  have len: "length l = 4 * ?N - 4"
    using slack_rows_zero [OF assms, of "2 * ?N"] assms(1) by simp
  have row: "csc_row_times A_x A_i A_p v (int r) = v ! r" if "length v = ?n" "r < ?n" for v r
    unfolding A using identity_row_times [OF that(2) that(1)] .
  have slack: "v ! (2 * ?N + i) = 0"
    if v: "length v = ?n" "within_bounds (A_x, A_i, A_p, l, u) v" and i: "i < ?N - 2" for v i
  proof -
    let ?r = "2 * ?N + i"
    have r: "?r < ?n" "?r < length l" "2 * ?N \<le> ?r" "?r \<le> 4 * ?N - 5"
      using i len by simp_all
    from v(2) have "\<forall>r < length l. l ! r \<le> csc_row_times A_x A_i A_p v (int r)
        \<and> csc_row_times A_x A_i A_p v (int r) \<le> u ! r"
      by (simp add: within_bounds_def list_all_iff)
    with r(2) have "l ! ?r \<le> csc_row_times A_x A_i A_p v (int ?r)
        \<and> csc_row_times A_x A_i A_p v (int ?r) \<le> u ! ?r"
      by blast
    then show ?thesis
      using zero [OF r(3) r(4)] row [OF v(1) r(1)] by simp
  qed
  show ?thesis
    using zero row slack by blast
qed

text \<open>Three points: the reference points themselves, with slack 0, are within the
  bounds, and rows 6 and 7 are zero.\<close>

theorem slack_variable_rows_are_zero_witness:
  "3 \<le> length (ref_points three_collinear)
   \<and> CalculateAffineConstraint (state_definitions three_collinear) ([], [], [], [], []) =
       ([1, 1, 1, 1, 1, 1, 1], [0, 1, 2, 3, 4, 5, 6], [0, 1, 2, 3, 4, 5, 6, 7],
        [- (10 ^ 20), - (1 / 10), 9 / 10, - (1 / 10), 19 / 10, - (1 / 10), 0, 0],
        [1, 1 / 10, 11 / 10, 1 / 10, 21 / 10, 1 / 10, 0, 0])
   \<and> length [0, 0, 1, 0, 2, 0, 0 :: real] = 7
   \<and> within_bounds ([1, 1, 1, 1, 1, 1, 1], [0, 1, 2, 3, 4, 5, 6], [0, 1, 2, 3, 4, 5, 6, 7],
        [- (10 ^ 20), - (1 / 10), 9 / 10, - (1 / 10), 19 / 10, - (1 / 10), 0, 0],
        [1, 1 / 10, 11 / 10, 1 / 10, 21 / 10, 1 / 10, 0, 0]) [0, 0, 1, 0, 2, 0, 0]
   \<and> [0, 0, 1, 0, 2, 0, 0 :: real] ! 6 = 0
   \<and> [- (10 ^ 20), - (1 / 10), 9 / 10, - (1 / 10), 19 / 10, - (1 / 10), 0, 0 :: real] ! 7 = 0
   \<and> [1, 1 / 10, 11 / 10, 1 / 10, 21 / 10, 1 / 10, 0, 0 :: real] ! 7 = 0"
proof -
  let ?l = "[- (10 ^ 20), - (1 / 10), 9 / 10, - (1 / 10), 19 / 10, - (1 / 10), 0, 0 :: real]"
  let ?u = "[1, 1 / 10, 11 / 10, 1 / 10, 21 / 10, 1 / 10, 0, 0 :: real]"
  let ?A = "([1, 1, 1, 1, 1, 1, 1 :: real], [0, 1, 2, 3, 4, 5, 6 :: int],
             [0, 1, 2, 3, 4, 5, 6, 7 :: int], ?l, ?u)"
  let ?v = "[0, 0, 1, 0, 2, 0, 0 :: real]"
  have h1: "3 \<le> length (ref_points three_collinear)"
    by (simp add: three_collinear_def smoother_def)
  have n: "length (ref_points three_collinear) = 3"
    by (simp add: three_collinear_def smoother_def)
  have h2: "CalculateAffineConstraint (state_definitions three_collinear) ([], [], [], [], []) = ?A"
    by code_simp
  have h3: "within_bounds ?A ?v"
    by code_simp
  note inst = slack_variable_rows_are_zero [OF h1 h2, unfolded n]
  from inst have "?l ! 7 = 0 \<and> ?u ! 7 = 0"
    by simp
  moreover from inst h3 have "?v ! (2 * 3 + 0) = 0"
    by simp
  ultimately show ?thesis
    using h1 h2 h3 by simp
qed

subsection \<open>The column pointers of the kernel\<close>




subsection \<open>Termination of the SQP loop\<close>

text \<open>
  C1. The claim is that the loop makes at most \<^verbatim>\<open>sqp_max_iter\<close> passes and that
  \<^verbatim>\<open>Solve\<close> always returns. The loop tests \<^verbatim>\<open>itr < sqp_max_iter_\<close>, but its body
  never assigns \<^verbatim>\<open>itr\<close>. Two inputs on which \<^verbatim>\<open>Solve\<close> never returns, both with
  four collinear points and at most 100 SQP iterations: tolerance \<open>0.0001\<close> and a
  solver that succeeds every time with an objective value alternating between 1 and
  2; tolerance 0 and a solver that succeeds every time with the same objective value.
\<close>

theorem Solve_never_returns:
  "Solve (scripted_solver oscillating) four_collinear = None
   \<and> Solve (scripted_solver steady) zero_tolerance = None"
proof
  let ?S = "scripted_solver oscillating"
  have "\<not> isl (sqp_begin ?S four_collinear)"
    by code_simp
  then obtain t0 L0 where b: "sqp_begin ?S four_collinear = Inr (t0, L0)"
    by (cases "sqp_begin ?S four_collinear") auto
  have m: "1 < sqp_max_iter four_collinear"
    by (simp add: four_collinear_def smoother_def)
  have tol: "sqp_jtol four_collinear = 1 / 10000"
    by (simp add: four_collinear_def smoother_def)
  show "Solve ?S four_collinear = None"
    using b m
  proof (rule Solve_without_progress)
    show "fst (?S h) = 1 \<or> fst (?S h) = 2" for h
      by (simp add: scripted_solver_def oscillating_def)
    show "\<not> fless (fabs (fdiv
          (fst (snd (?S h))
             - fst (snd (?S (h @ [Osqp_update_A a n, Osqp_update_bounds l u,
                                       Osqp_warm_start_x x, Osqp_solve]))))
          (fst (snd (?S h))))) (sqp_jtol four_collinear)" for h a n l u x
      by (simp add: tol scripted_solver_def oscillating_def solves_so_far_def
          fless_def fabs_def fdiv_def)
  qed
next
  let ?S = "scripted_solver steady"
  have "\<not> isl (sqp_begin ?S zero_tolerance)"
    by code_simp
  then obtain t0 L0 where b: "sqp_begin ?S zero_tolerance = Inr (t0, L0)"
    by (cases "sqp_begin ?S zero_tolerance") auto
  have m: "1 < sqp_max_iter zero_tolerance"
    by (simp add: zero_tolerance_def four_collinear_def smoother_def)
  have tol: "sqp_jtol zero_tolerance = 0"
    by (simp add: zero_tolerance_def)
  show "Solve ?S zero_tolerance = None"
    using b m
  proof (rule Solve_without_progress)
    show "fst (?S h) = 1 \<or> fst (?S h) = 2" for h
      by (simp add: scripted_solver_def steady_def)
    show "\<not> fless (fabs (fdiv
          (fst (snd (?S h))
             - fst (snd (?S (h @ [Osqp_update_A a n, Osqp_update_bounds l u,
                                       Osqp_warm_start_x x, Osqp_solve]))))
          (fst (snd (?S h))))) (sqp_jtol zero_tolerance)" for h a n l u x
      by (simp add: tol scripted_solver_def steady_def fless_def fabs_def fdiv_def)
  qed
qed

subsection \<open>The constraint data across iterations\<close>

text \<open>
  C9. \<^verbatim>\<open>UpdateAffineConstraint\<close> returns the constraint-matrix values, row indices,
  column pointers, lower bounds and upper bounds it was given. Hence at every loop
  head the constraint data are those of loop entry, and the pass that follows hands
  exactly these values to \<^verbatim>\<open>osqp_update_A\<close> and \<^verbatim>\<open>osqp_update_bounds\<close>.
\<close>

theorem UpdateAffineConstraint_changes_nothing:
  "UpdateAffineConstraint this (A_x, A_i, A_p, l, u) = (A_x, A_i, A_p, l, u)
   \<and> (\<forall>k this' L'. loop_head solver k (this0, L0) = Some (this', L') \<longrightarrow>
         A_data L' = A_data L0 \<and> A_indices L' = A_indices L0 \<and> A_indptr L' = A_indptr L0
       \<and> lower_bounds L' = lower_bounds L0 \<and> upper_bounds L' = upper_bounds L0
       \<and> (\<exists>rest. calls (work (snd (snd (sqp_resolve solver this' L')))) =
             calls (work L') @ Osqp_update_A (A_data L0) (int (length (A_data L0)))
               # Osqp_update_bounds (lower_bounds L0) (upper_bounds L0) # rest))"
proof -
  have 1: "UpdateAffineConstraint this (A_x, A_i, A_p, l, u) = (A_x, A_i, A_p, l, u)"
    by (simp add: UpdateAffineConstraint_def)
  have 2: "A_data L' = A_data L0 \<and> A_indices L' = A_indices L0 \<and> A_indptr L' = A_indptr L0
       \<and> lower_bounds L' = lower_bounds L0 \<and> upper_bounds L' = upper_bounds L0
       \<and> (\<exists>rest. calls (work (snd (snd (sqp_resolve solver this' L')))) =
             calls (work L') @ Osqp_update_A (A_data L0) (int (length (A_data L0)))
               # Osqp_update_bounds (lower_bounds L0) (upper_bounds L0) # rest)"
    if h: "loop_head solver k (this0, L0) = Some (this', L')" for k this' L'
  proof -
    note inv = loop_head_invariant [OF h]
    obtain ok t1 L1 where r: "sqp_resolve solver this' L' = (ok, t1, L1)"
      by (metis prod.exhaust)
    from sqp_resolve_calls [OF r] inv show ?thesis
      by (simp add: r)
  qed
  from 1 2 show ?thesis by blast
qed

text \<open>Four collinear points and the oscillating solver: after two passes the
  constraint data are those of loop entry.\<close>

theorem UpdateAffineConstraint_changes_nothing_witness:
  "loop_head (scripted_solver oscillating) 2 (projr (sqp_begin (scripted_solver oscillating) four_collinear)) \<noteq> None
   \<and> A_data (snd (the (loop_head (scripted_solver oscillating) 2
         (projr (sqp_begin (scripted_solver oscillating) four_collinear)))))
       = A_data (snd (projr (sqp_begin (scripted_solver oscillating) four_collinear)))
   \<and> lower_bounds (snd (the (loop_head (scripted_solver oscillating) 2
         (projr (sqp_begin (scripted_solver oscillating) four_collinear)))))
       = lower_bounds (snd (projr (sqp_begin (scripted_solver oscillating) four_collinear)))
   \<and> upper_bounds (snd (the (loop_head (scripted_solver oscillating) 2
         (projr (sqp_begin (scripted_solver oscillating) four_collinear)))))
       = upper_bounds (snd (projr (sqp_begin (scripted_solver oscillating) four_collinear)))"
proof -
  let ?S = "scripted_solver oscillating"
  let ?s0 = "projr (sqp_begin ?S four_collinear)"
  have ne: "loop_head ?S 2 ?s0 \<noteq> None"
    by code_simp
  then obtain t2 L2 where h: "loop_head ?S 2 (fst ?s0, snd ?s0) = Some (t2, L2)"
    by auto
  from UpdateAffineConstraint_changes_nothing [of _ _ _ _ _ _ ?S "fst ?s0" "snd ?s0"] h
  have "A_data L2 = A_data (snd ?s0) \<and> lower_bounds L2 = lower_bounds (snd ?s0)
      \<and> upper_bounds L2 = upper_bounds (snd ?s0)"
    by blast
  with h ne show ?thesis by simp
qed

subsection \<open>The warm start\<close>

text \<open>
  C4, as stated, fails: with four collinear points and a solver whose solution is the
  zero vector, the first pass through the loop warm-starts the solver with the
  reference points \<open>[0,0,1,0,2,0,3,0,0,0]\<close>, not with the previous solution.
\<close>

theorem warm_start_counterexample:
  "\<not> isl (sqp_begin (scripted_solver oscillating) four_collinear)
   \<and> itr (snd (projr (sqp_begin (scripted_solver oscillating) four_collinear)))
       < sqp_max_iter (fst (projr (sqp_begin (scripted_solver oscillating) four_collinear)))
   \<and> solution_x (work (snd (projr (sqp_begin (scripted_solver oscillating) four_collinear))))
       = [0, 0, 0, 0, 0, 0, 0, 0, 0, 0]
   \<and> length (calls (work (snd (projr (sqp_begin (scripted_solver oscillating) four_collinear))))) = 3
   \<and> drop 5 (calls (work (snd (snd (sqp_resolve (scripted_solver oscillating)
         (fst (projr (sqp_begin (scripted_solver oscillating) four_collinear)))
         (snd (projr (sqp_begin (scripted_solver oscillating) four_collinear))))))))
       = [Osqp_warm_start_x [0, 0, 1, 0, 2, 0, 3, 0, 0, 0], Osqp_solve]"
  by code_simp

text \<open>
  C4, amended. In every pass through the SQP loop the primal warm-start vector passed
  to the solver is the vector of the initial solve: the reference points, \<open>x\<close> and
  \<open>y\<close> interleaved, followed by a zero for each slack variable.
\<close>

theorem warm_start_is_the_reference_points:
  assumes "sqp_begin solver t = Inr (this0, L0)"
    and "loop_head solver k (this0, L0) = Some (this, L)"
  shows "(\<exists>u1 u2. calls (work (snd (snd (sqp_resolve solver this L))))
            = calls (work L) @ [u1, u2, Osqp_warm_start_x (primal_warm_start L0), Osqp_solve])
       \<and> (\<exists>data settings. calls (work L0)
            = [Osqp_setup data settings, Osqp_warm_start_x (primal_warm_start L0), Osqp_solve])
       \<and> length (primal_warm_start L0) = 3 * length (ref_points t) - 2
       \<and> (\<forall>i < length (ref_points t).
             primal_warm_start L0 ! (2 * i) = fst (ref_points t ! i)
           \<and> primal_warm_start L0 ! (2 * i + 1) = snd (ref_points t ! i))
       \<and> (\<forall>j. 2 * length (ref_points t) \<le> j \<and> j < 3 * length (ref_points t) - 2
             \<longrightarrow> primal_warm_start L0 ! j = 0)"
proof -
  obtain ok t1 L1 where r: "sqp_resolve solver this L = (ok, t1, L1)"
    by (metis prod.exhaust)
  have "primal_warm_start L = primal_warm_start L0"
    using loop_head_invariant [OF assms(2)] by simp
  with sqp_resolve_calls [OF r]
  have 1: "\<exists>u1 u2. calls (work (snd (snd (sqp_resolve solver this L))))
            = calls (work L) @ [u1, u2, Osqp_warm_start_x (primal_warm_start L0), Osqp_solve]"
    by (simp add: r)
  have "2 \<le> length (ref_points t)"
    using sqp_begin_valid [OF assms(1)] by simp
  from SetPrimalWarmStart_closed [OF this] sqp_begin_Inr(3) [OF assms(1)]
  have 2: "length (primal_warm_start L0) = 3 * length (ref_points t) - 2
       \<and> (\<forall>i < length (ref_points t).
             primal_warm_start L0 ! (2 * i) = fst (ref_points t ! i)
           \<and> primal_warm_start L0 ! (2 * i + 1) = snd (ref_points t ! i))
       \<and> (\<forall>j. 2 * length (ref_points t) \<le> j \<and> j < 3 * length (ref_points t) - 2
             \<longrightarrow> primal_warm_start L0 ! j = 0)"
    by auto
  from 1 2 sqp_begin_Inr(5) [OF assms(1)] show ?thesis
    by blast
qed

text \<open>Four collinear points: the second pass of the loop again warm-starts with the
  reference points.\<close>

theorem warm_start_is_the_reference_points_witness:
  "\<not> isl (sqp_begin (scripted_solver oscillating) four_collinear)
   \<and> loop_head (scripted_solver oscillating) 1
        (projr (sqp_begin (scripted_solver oscillating) four_collinear)) \<noteq> None
   \<and> primal_warm_start (snd (projr (sqp_begin (scripted_solver oscillating) four_collinear)))
        = [0, 0, 1, 0, 2, 0, 3, 0, 0, 0]
   \<and> drop 9 (calls (work (snd (snd (sqp_resolve (scripted_solver oscillating)
         (fst (the (loop_head (scripted_solver oscillating) 1
            (projr (sqp_begin (scripted_solver oscillating) four_collinear)))))
         (snd (the (loop_head (scripted_solver oscillating) 1
            (projr (sqp_begin (scripted_solver oscillating) four_collinear))))))))))
        = [Osqp_warm_start_x [0, 0, 1, 0, 2, 0, 3, 0, 0, 0], Osqp_solve]"
proof -
  let ?S = "scripted_solver oscillating"
  have nb: "\<not> isl (sqp_begin ?S four_collinear)"
    by code_simp
  then obtain t0 L0 where b: "sqp_begin ?S four_collinear = Inr (t0, L0)"
    by (cases "sqp_begin ?S four_collinear") auto
  have ne: "loop_head ?S 1 (projr (sqp_begin ?S four_collinear)) \<noteq> None"
    by code_simp
  then obtain t1 L1 where h: "loop_head ?S 1 (t0, L0) = Some (t1, L1)"
    by (auto simp: b)
  have "primal_warm_start (snd (projr (sqp_begin ?S four_collinear))) = [0, 0, 1, 0, 2, 0, 3, 0, 0, 0]"
    by code_simp
  then have p: "primal_warm_start L0 = [0, 0, 1, 0, 2, 0, 3, 0, 0, 0]"
    by (simp add: b)
  have "length (calls (work (snd (the (loop_head ?S 1 (projr (sqp_begin ?S four_collinear))))))) = 7"
    by code_simp
  then have len: "length (calls (work L1)) = 7"
    using h by (simp add: b)
  from warm_start_is_the_reference_points [OF b h] obtain u1 u2 where
    "calls (work (snd (snd (sqp_resolve ?S t1 L1))))
       = calls (work L1) @ [u1, u2, Osqp_warm_start_x (primal_warm_start L0), Osqp_solve]"
    by blast
  then have "drop 9 (calls (work (snd (snd (sqp_resolve ?S t1 L1)))))
       = [Osqp_warm_start_x [0, 0, 1, 0, 2, 0, 3, 0, 0, 0], Osqp_solve]"
    using len by (simp add: p)
  with nb ne p h show ?thesis
    by (simp add: b)
qed

subsection \<open>The convergence test\<close>

text \<open>
  C5, as stated, fails for a negative previous objective: with previous value \<open>-2\<close>
  and current value \<open>-1\<close> the claimed quantity \<open>|prev - cur| / prev\<close> is \<open>-1/2\<close>, below
  the tolerance, yet the pass does not return; the value computed is \<open>1/2\<close>.
\<close>

theorem relative_change_counterexample:
  "\<not> isl (sqp_begin (scripted_solver settling) four_collinear)
   \<and> itr (snd (projr (sqp_begin (scripted_solver settling) four_collinear)))
       < sqp_max_iter (fst (projr (sqp_begin (scripted_solver settling) four_collinear)))
   \<and> last_jvalue (snd (projr (sqp_begin (scripted_solver settling) four_collinear))) = - 2
   \<and> fst (sqp_resolve (scripted_solver settling)
         (fst (projr (sqp_begin (scripted_solver settling) four_collinear)))
         (snd (projr (sqp_begin (scripted_solver settling) four_collinear))))
   \<and> info_obj_val (work (snd (snd (sqp_resolve (scripted_solver settling)
         (fst (projr (sqp_begin (scripted_solver settling) four_collinear)))
         (snd (projr (sqp_begin (scripted_solver settling) four_collinear))))))) = - 1
   \<and> \<bar>(- 2 :: real) - (- 1)\<bar> / (- 2) = - (1 / 2)
   \<and> - (1 / 2) < sqp_jtol (fst (projr (sqp_begin (scripted_solver settling) four_collinear)))
   \<and> \<not> isl (sqp_iteration (scripted_solver settling)
         (fst (projr (sqp_begin (scripted_solver settling) four_collinear)))
         (snd (projr (sqp_begin (scripted_solver settling) four_collinear))))
   \<and> eps (snd (projr (sqp_iteration (scripted_solver settling)
         (fst (projr (sqp_begin (scripted_solver settling) four_collinear)))
         (snd (projr (sqp_begin (scripted_solver settling) four_collinear)))))) = Some (1 / 2)"
  by code_simp

text \<open>
  C5, amended. In every pass of the loop whose solve succeeds, the relative change
  computed is \<open>|(prev - cur) / prev| = |prev - cur| / |prev|\<close>, where \<open>prev\<close> is the
  objective value of the previous solve and \<open>cur\<close> that of the current one, and
  \<^verbatim>\<open>Solve\<close> returns success with the current solution exactly when \<open>prev\<close> is not
  zero and this value is below \<^verbatim>\<open>sqp_jtol\<close>; otherwise the loop goes on to its next
  pass.
\<close>

theorem convergence_test:
  assumes b: "sqp_begin solver t = Inr s0"
    and h: "loop_head solver k s0 = Some (this, L)"
    and c: "itr L < sqp_max_iter this"
    and r: "sqp_resolve solver this L = (True, this', L')"
  shows "last_jvalue L = info_obj_val (work L)
       \<and> (if last_jvalue L \<noteq> 0
             \<and> \<bar>(last_jvalue L - info_obj_val (work L')) / last_jvalue L\<bar> < sqp_jtol this'
          then Solve solver t
                 = Some (Objective_converges, this', calls (osqp_cleanup (work L')))
          else loop_head solver (Suc k) s0
                 = Some (this', L'\<lparr>eps := (if last_jvalue L = 0 then None
                      else Some \<bar>(last_jvalue L - info_obj_val (work L')) / last_jvalue L\<bar>),
                    last_jvalue := info_obj_val (work L')\<rparr>))
       \<and> \<bar>(last_jvalue L - info_obj_val (work L')) / last_jvalue L\<bar>
           = \<bar>last_jvalue L - info_obj_val (work L')\<bar> / \<bar>last_jvalue L\<bar>
       \<and> length (x_out this') = length (ref_points t)
       \<and> length (y_out this') = length (ref_points t)
       \<and> (\<forall>i < length (ref_points t).
             x_out this' ! i = solution_x (work L') ! (2 * i)
           \<and> y_out this' ! i = solution_x (work L') ! (2 * i + 1))"
proof -
  obtain t0 L0 where s0: "s0 = (t0, L0)"
    by (cases s0)
  note b0 = b [unfolded s0] and h0 = h [unfolded s0]
  have prev: "last_jvalue L = info_obj_val (work L)"
    using loop_head_last_jvalue [OF h0 sqp_begin_Inr(2) [OF b0]] .
  have same: "last_jvalue L' = last_jvalue L"
    using sqp_resolve_locals(1) [OF r] by simp
  let ?prev = "last_jvalue L"
  let ?cur = "info_obj_val (work L')"
  let ?q = "\<bar>(?prev - ?cur) / ?prev\<bar>"
  have test: "fless (fabs (fdiv (last_jvalue L' - ?cur) (last_jvalue L'))) (sqp_jtol this')
      \<longleftrightarrow> ?prev \<noteq> 0 \<and> ?q < sqp_jtol this'"
    by (simp add: same fless_def fabs_def fdiv_def)
  have eps: "fabs (fdiv (last_jvalue L' - ?cur) (last_jvalue L'))
      = (if ?prev = 0 then None else Some ?q)"
    by (simp add: same fabs_def fdiv_def)
  have loop: "Solve solver t = sqp_loop solver this L"
    using sqp_loop_from_head [OF h] by (simp add: Solve_def b)
  have branch: "if ?prev \<noteq> 0 \<and> ?q < sqp_jtol this'
          then Solve solver t
                 = Some (Objective_converges, this', calls (osqp_cleanup (work L')))
          else loop_head solver (Suc k) s0
                 = Some (this', L'\<lparr>eps := (if ?prev = 0 then None else Some ?q),
                                    last_jvalue := ?cur\<rparr>)"
  proof (cases "?prev \<noteq> 0 \<and> ?q < sqp_jtol this'")
    case True
    then have "sqp_iteration solver this L
        = Inl (Objective_converges, this', calls (osqp_cleanup (work L')))"
      using test by (simp add: sqp_iteration_unfold [OF r])
    then have "sqp_loop solver this L
        = Some (Objective_converges, this', calls (osqp_cleanup (work L')))"
      using c by (subst sqp_loop.simps) simp
    with True loop show ?thesis by simp
  next
    case False
    then have "sqp_iteration solver this L
        = Inr (this', L'\<lparr>eps := (if ?prev = 0 then None else Some ?q), last_jvalue := ?cur\<rparr>)"
      using test eps by (simp add: sqp_iteration_unfold [OF r])
    with h c have "loop_head solver (Suc k) s0
        = Some (this', L'\<lparr>eps := (if ?prev = 0 then None else Some ?q), last_jvalue := ?cur\<rparr>)"
      by simp
    then show ?thesis
      by (simp only: False if_False)
  qed
  have quot: "?q = \<bar>?prev - ?cur\<bar> / \<bar>?prev\<bar>"
    by (rule abs_divide)
  obtain xs ys where t': "this = t0\<lparr>x_out := xs, y_out := ys\<rparr>"
    using loop_head_this [OF h0] by blast
  obtain xs' ys' where t0: "t0 = (state_definitions t)\<lparr>x_out := xs', y_out := ys'\<rparr>"
    using sqp_begin_this [OF b0] by blast
  have N: "num_of_points this = int (length (ref_points t))"
    by (simp add: t' t0 state_definitions_fields)
  let ?w = "osqp_update_bounds (osqp_update_A (work L) (A_data L) (int (length (A_data L))))
              (lower_bounds L) (upper_bounds L)"
  let ?o = "OptimizeWithOsqp solver this (primal_warm_start L) ?w"
  from r have o: "fst ?o" "this' = fst (snd ?o)" "work L' = snd (snd ?o)"
    by (auto simp: sqp_resolve_def UpdateAffineConstraint_def Let_def split: prod.splits)
  from OptimizeWithOsqp_solution [OF o(1)] have sol:
    "length (x_out this') = length (ref_points t) \<and> length (y_out this') = length (ref_points t)
       \<and> (\<forall>i < length (ref_points t).
             x_out this' ! i = solution_x (work L') ! (2 * i)
           \<and> y_out this' ! i = solution_x (work L') ! (2 * i + 1))"
    unfolding o(2) o(3) N by simp
  show ?thesis
    by (rule conjI [OF prev conjI [OF branch conjI [OF quot sol]]])
qed

text \<open>Four collinear points and the settling solver: the second pass sees the
  objective unchanged and \<^verbatim>\<open>Solve\<close> returns success.\<close>

theorem convergence_test_witness:
  "\<not> isl (sqp_begin (scripted_solver settling) four_collinear)
   \<and> loop_head (scripted_solver settling) 1
        (projr (sqp_begin (scripted_solver settling) four_collinear)) \<noteq> None
   \<and> itr (snd (the (loop_head (scripted_solver settling) 1
          (projr (sqp_begin (scripted_solver settling) four_collinear)))))
       < sqp_max_iter (fst (the (loop_head (scripted_solver settling) 1
          (projr (sqp_begin (scripted_solver settling) four_collinear)))))
   \<and> fst (sqp_resolve (scripted_solver settling)
         (fst (the (loop_head (scripted_solver settling) 1
            (projr (sqp_begin (scripted_solver settling) four_collinear)))))
         (snd (the (loop_head (scripted_solver settling) 1
            (projr (sqp_begin (scripted_solver settling) four_collinear))))))
   \<and> last_jvalue (snd (the (loop_head (scripted_solver settling) 1
          (projr (sqp_begin (scripted_solver settling) four_collinear))))) = - 1
   \<and> Solve (scripted_solver settling) four_collinear
       = Some (Objective_converges,
           fst (snd (sqp_resolve (scripted_solver settling)
             (fst (the (loop_head (scripted_solver settling) 1
                (projr (sqp_begin (scripted_solver settling) four_collinear)))))
             (snd (the (loop_head (scripted_solver settling) 1
                (projr (sqp_begin (scripted_solver settling) four_collinear))))))),
           calls (osqp_cleanup (work (snd (snd (sqp_resolve (scripted_solver settling)
             (fst (the (loop_head (scripted_solver settling) 1
                (projr (sqp_begin (scripted_solver settling) four_collinear)))))
             (snd (the (loop_head (scripted_solver settling) 1
                (projr (sqp_begin (scripted_solver settling) four_collinear)))))))))))"
proof -
  let ?S = "scripted_solver settling"
  let ?s0 = "projr (sqp_begin ?S four_collinear)"
  let ?s1 = "the (loop_head ?S 1 ?s0)"
  let ?r = "sqp_resolve ?S (fst ?s1) (snd ?s1)"
  have nb: "\<not> isl (sqp_begin ?S four_collinear)"
    by code_simp
  then obtain s0 where b: "sqp_begin ?S four_collinear = Inr s0"
    by (cases "sqp_begin ?S four_collinear") auto
  have ne: "loop_head ?S 1 ?s0 \<noteq> None"
    by code_simp
  then obtain t1 L1 where h: "loop_head ?S 1 s0 = Some (t1, L1)"
    by (auto simp: b)
  have c0: "itr (snd ?s1) < sqp_max_iter (fst ?s1)"
    by code_simp
  then have c: "itr L1 < sqp_max_iter t1"
    using h by (simp add: b)
  have r0: "fst ?r"
    by code_simp
  then obtain t2 L2 where r: "sqp_resolve ?S t1 L1 = (True, t2, L2)"
    using h by (cases "sqp_resolve ?S t1 L1") (auto simp: b)
  have v0: "last_jvalue (snd ?s1) = - 1" "info_obj_val (work (snd (snd ?r))) = - 1"
    "sqp_jtol (fst (snd ?r)) = 1 / 10000"
    by code_simp+
  then have v: "last_jvalue L1 = - 1" "info_obj_val (work L2) = - 1" "sqp_jtol t2 = 1 / 10000"
    using h r by (simp_all add: b)
  from convergence_test [OF b h c r]
  have "Solve ?S four_collinear = Some (Objective_converges, t2, calls (osqp_cleanup (work L2)))"
    by (simp add: v)
  then show ?thesis
    using nb ne c0 r0 v0(1) h r by (simp add: b)
qed

end
